theory Spec2Isabelle
  imports Complex_Main "HOL-Library.Word" "HOL-Library.Multiset" "HOL-Library.Product_Lexorder"
begin

section \<open>Strings\<close>

text \<open>
  A JavaScript string is a sequence of UTF-16 code units; \<open>.length\<close> counts code units.
\<close>

type_synonym jschar = "16 word"
type_synonym jsstring = "jschar list"

text \<open>An ASCII literal as a JavaScript string.\<close>

definition ascii :: "string \<Rightarrow> jsstring" where
  "ascii s = map (\<lambda>c. of_nat (of_char c)) s"

text \<open>
  \<open>String.prototype.trim\<close> strips the code points of WhiteSpace (TAB, VT, FF, SP, NBSP,
  ZWNBSP and the category Zs) and of LineTerminator (LF, CR, LS, PS) from both ends. All of
  them lie in the Basic Multilingual Plane, so the test is on single code units.
\<close>

definition is_whitespace :: "jschar \<Rightarrow> bool" where
  "is_whitespace c \<longleftrightarrow>
     c = 0x0009 \<or> c = 0x000A \<or> c = 0x000B \<or> c = 0x000C \<or> c = 0x000D \<or> c = 0x0020 \<or>
     c = 0x00A0 \<or> c = 0x1680 \<or> (0x2000 \<le> c \<and> c \<le> 0x200A) \<or> c = 0x2028 \<or>
     c = 0x2029 \<or> c = 0x202F \<or> c = 0x205F \<or> c = 0x3000 \<or> c = 0xFEFF"

definition trim :: "jsstring \<Rightarrow> jsstring" where
  "trim s = rev (dropWhile is_whitespace (rev (dropWhile is_whitespace s)))"

section \<open>Data model (types/todo.ts)\<close>

text \<open>
  A \<open>Date\<close> holds a time value: an integral number of milliseconds since the epoch, at
  most 8.64e15 in magnitude, or NaN (an Invalid Date), which is \<open>None\<close> here.
\<close>

type_synonym Date = "int option"

record Todo =
  id :: jsstring
  title :: jsstring
  completed :: bool
  createdAt :: Date

text \<open>\<open>TodoUpdate = Partial<Omit<Todo, 'id' | 'createdAt'>>\<close>: an absent field is \<open>None\<close>.\<close>

record TodoUpdate =
  u_title :: "jsstring option"
  u_completed :: "bool option"

text \<open>\<open>CreateTodoInput = Pick<Todo, 'title'>\<close>\<close>

record CreateTodoInput =
  i_title :: jsstring

section \<open>TodoService: operations on the collection (services/todoService.ts)\<close>

text \<open>
  \<open>createTodo\<close> draws the identifier from \<open>crypto.randomUUID()\<close> and the time from
  \<open>new Date()\<close>; both are arguments here.
\<close>

definition createTodo :: "jsstring \<Rightarrow> int \<Rightarrow> CreateTodoInput \<Rightarrow> Todo" where
  "createTodo uuid now input =
     \<lparr> id = uuid, title = trim (i_title input), completed = False, createdAt = Some now \<rparr>"

text \<open>
  \<open>updateTodo\<close>: the spread \<open>{...todo, ...updates, title: \<dots>}\<close>. The title is taken from
  \<open>updates\<close> when \<open>updates.title\<close> is truthy, that is present and not the empty string.
\<close>

definition update_one :: "TodoUpdate \<Rightarrow> Todo \<Rightarrow> Todo" where
  "update_one updates todo =
     todo \<lparr> completed := (case u_completed updates of Some c \<Rightarrow> c | None \<Rightarrow> completed todo),
            title := (case u_title updates of
                        Some t \<Rightarrow> if t \<noteq> [] then trim t else title todo
                      | None \<Rightarrow> title todo) \<rparr>"

definition updateTodo :: "Todo list \<Rightarrow> jsstring \<Rightarrow> TodoUpdate \<Rightarrow> Todo list" where
  "updateTodo todos i updates =
     map (\<lambda>todo. if id todo = i then update_one updates todo else todo) todos"

definition deleteTodo :: "Todo list \<Rightarrow> jsstring \<Rightarrow> Todo list" where
  "deleteTodo todos i = filter (\<lambda>todo. id todo \<noteq> i) todos"

definition toggleComplete :: "Todo list \<Rightarrow> jsstring \<Rightarrow> Todo list" where
  "toggleComplete todos i =
     map (\<lambda>todo. if id todo = i then todo \<lparr> completed := \<not> completed todo \<rparr> else todo) todos"

section \<open>Dates as the platform serialises them\<close>

text \<open>
  \<open>JSON.stringify\<close> writes a \<open>Date\<close> through \<open>toJSON\<close>: \<open>null\<close> for an Invalid Date and
  \<open>toISOString()\<close> otherwise, the text \<open>YYYY-MM-DDTHH:mm:ss.sssZ\<close> (or \<open>\<plusminus>YYYYYY-\<dots>\<close> for a
  year outside 0..9999). The day and year arithmetic is that of ECMAScript: \<open>Day\<close>,
  \<open>DayFromYear\<close>, \<open>YearFromTime\<close>, \<open>MonthFromTime\<close>, \<open>DateFromTime\<close>.
\<close>

definition msPerDay :: int where
  "msPerDay = 86400000"

definition DayFromYear :: "int \<Rightarrow> int" where
  "DayFromYear y = 365 * (y - 1970) + (y - 1969) div 4 - (y - 1901) div 100 + (y - 1601) div 400"

definition InLeapYear :: "int \<Rightarrow> bool" where
  "InLeapYear y \<longleftrightarrow> y mod 4 = 0 \<and> (y mod 100 \<noteq> 0 \<or> y mod 400 = 0)"

text \<open>A year has at least 364 days, which is all the search below needs to end.\<close>

lemma year_length_bound:
  "(a::int) \<le> a' \<Longrightarrow> c \<le> c' \<Longrightarrow> b' \<le> b + 1 \<Longrightarrow>
   365 * x + a - b + c + 364 \<le> 365 * (x + 1) + a' - b' + c'"
  by simp

lemma DayFromYear_step: "DayFromYear y + 364 \<le> DayFromYear (y + 1)"
proof -
  have a: "(y - 1969) div 4 \<le> (y + 1 - 1969) div 4" by (rule zdiv_mono1) auto
  have c: "(y - 1601) div 400 \<le> (y + 1 - 1601) div 400" by (rule zdiv_mono1) auto
  have b: "(y + 1 - 1901) div 100 \<le> (y - 1901) div 100 + 1"
  proof -
    have "(y + 1 - 1901) div 100 \<le> (y - 1901 + 100) div 100" by (rule zdiv_mono1) auto
    also have "\<dots> = (y - 1901) div 100 + 1" by simp
    finally show ?thesis .
  qed
  have "365 * (y - 1970) + (y - 1969) div 4 - (y - 1901) div 100 + (y - 1601) div 400 + 364
     \<le> 365 * ((y - 1970) + 1) + (y + 1 - 1969) div 4 - (y + 1 - 1901) div 100 + (y + 1 - 1601) div 400"
    by (rule year_length_bound [OF a c b])
  moreover have "(y - 1970) + 1 = y + 1 - 1970" by simp
  ultimately show ?thesis unfolding DayFromYear_def by (simp only:)
qed

text \<open>The largest year whose first day is not after day \<open>d\<close>, searched upwards from a year
  that is not after it.\<close>

function year_search :: "int \<Rightarrow> int \<Rightarrow> int" where
  "year_search d y = (if DayFromYear (y + 1) \<le> d then year_search d (y + 1) else y)"
  by pat_completeness auto
termination
proof (relation "measure (\<lambda>(d, y). nat (d + 1 - DayFromYear (y + 1)))")
  show "wf (measure (\<lambda>(d, y). nat (d + 1 - DayFromYear (y + 1))))" by simp
next
  fix d y :: int
  assume "DayFromYear (y + 1) \<le> d"
  with DayFromYear_step [of "y + 1"]
  show "((d, y + 1), (d, y)) \<in> measure (\<lambda>(d, y). nat (d + 1 - DayFromYear (y + 1)))"
    by simp
qed

declare year_search.simps [simp del]

definition YearFromDay :: "int \<Rightarrow> int" where
  "YearFromDay d = year_search d (1970 + (if 0 \<le> d then d div 366 else d div 365))"

text \<open>The number of days of the year before month \<open>m\<close> (0 is January).\<close>

definition month_start :: "bool \<Rightarrow> nat \<Rightarrow> nat" where
  "month_start leap m =
     [0, 31, 59, 90, 120, 151, 181, 212, 243, 273, 304, 334, 365] ! m
       + (if leap \<and> 2 \<le> m then 1 else 0)"

definition MonthFromDay :: "bool \<Rightarrow> nat \<Rightarrow> nat" where
  "MonthFromDay leap diy =
     length (filter (\<lambda>m. month_start leap m \<le> diy) [1, 2, 3, 4, 5, 6, 7, 8, 9, 10, 11])"

definition digit :: "nat \<Rightarrow> jschar" where
  "digit n = of_nat (48 + n mod 10)"

text \<open>\<open>pad k n\<close>: the last \<open>k\<close> decimal digits of \<open>n\<close>, zero-padded.\<close>

fun pad :: "nat \<Rightarrow> nat \<Rightarrow> jsstring" where
  "pad 0 n = []"
| "pad (Suc k) n = pad k (n div 10) @ [digit n]"

definition year_text :: "int \<Rightarrow> jsstring" where
  "year_text y =
     (if 0 \<le> y \<and> y \<le> 9999 then pad 4 (nat y)
      else (if y < 0 then ascii ''-'' else ascii ''+'') @ pad 6 (nat \<bar>y\<bar>))"

definition toISOString :: "int \<Rightarrow> jsstring" where
  "toISOString t =
     (let d = t div msPerDay;
          ms = nat (t mod msPerDay);
          y = YearFromDay d;
          diy = nat (d - DayFromYear y);
          m = MonthFromDay (InLeapYear y) diy;
          date = diy - month_start (InLeapYear y) m + 1
      in year_text y @ ascii ''-'' @ pad 2 (m + 1) @ ascii ''-'' @ pad 2 date @ ascii ''T'' @
         pad 2 (ms div 3600000) @ ascii '':'' @ pad 2 (ms div 60000 mod 60) @ ascii '':'' @
         pad 2 (ms div 1000 mod 60) @ ascii ''.'' @ pad 3 (ms mod 1000) @ ascii ''Z'')"

text \<open>\<open>TimeClip\<close>: a time value beyond 8.64e15 ms from the epoch is NaN.\<close>

definition TimeClip :: "int \<Rightarrow> Date" where
  "TimeClip t = (if \<bar>t\<bar> \<le> 8640000000000000 then Some t else None)"

section \<open>Stored data and the backing store\<close>

text \<open>
  The values \<open>JSON.parse\<close> returns. A number is the rational value of the double, or an
  infinity (a literal beyond the range of doubles), positive when the flag is true.
\<close>

datatype json =
    JNull
  | JBool bool
  | JNum rat
  | JInfinity bool
  | JStr jsstring
  | JArr "json list"
  | JObj "(jsstring \<times> json) list"

text \<open>JavaScript truthiness of a parsed value (\<open>!v\<close> is its negation).\<close>

fun truthy :: "json \<Rightarrow> bool" where
  "truthy JNull = False"
| "truthy (JBool b) = b"
| "truthy (JNum n) = (n \<noteq> 0)"
| "truthy (JInfinity _) = True"
| "truthy (JStr s) = (s \<noteq> [])"
| "truthy (JArr _) = True"
| "truthy (JObj _) = True"

text \<open>
  What \<open>JSON.stringify\<close> makes of a collection: an array of objects with the four fields,
  the date written by \<open>toJSON\<close>.
\<close>

definition todo_json :: "Todo \<Rightarrow> json" where
  "todo_json todo = JObj
     [(ascii ''id'', JStr (id todo)),
      (ascii ''title'', JStr (title todo)),
      (ascii ''completed'', JBool (completed todo)),
      (ascii ''createdAt'', case createdAt todo of Some t \<Rightarrow> JStr (toISOString t) | None \<Rightarrow> JNull)]"

definition stringify :: "Todo list \<Rightarrow> json" where
  "stringify todos = JArr (map todo_json todos)"

text \<open>
  The content of the slot \<open>'todos'\<close>, as \<open>getItem\<close> and \<open>JSON.parse\<close> see it: no item
  (\<open>getItem\<close> returns \<open>null\<close>), the empty text (falsy), a text on which \<open>JSON.parse\<close> throws,
  or a text that \<open>JSON.parse\<close> turns into a value. \<open>JSON.parse (JSON.stringify v)\<close> gives
  back the value written, so a write stores \<open>Text\<close> of the value.
\<close>

datatype stored = NoItem | EmptyText | Malformed | Text json

text \<open>How \<open>setItem\<close> answers: it stores, throws \<open>QuotaExceededError\<close>, or throws otherwise.\<close>

datatype write_outcome = Accepted | QuotaExceededError | OtherError

record LocalStorage =
  item :: stored
  setItem_outcome :: "json \<Rightarrow> write_outcome"
  removeItem_throws :: bool

text \<open>
  The environment: no usable storage (\<open>typeof window === 'undefined' || !window.localStorage\<close>),
  a storage whose access throws, or a storage.
\<close>

datatype window = NoStorage | StorageThrows | Storage LocalStorage

text \<open>
  The messages of the code, in the order: title is required; title cannot be empty; title
  must be within 500 characters; storage capacity is insufficient, delete old data; saving
  the data failed; saving the data failed, followed by the cause; the data is not persisted
  (local storage disabled); clearing the data failed.
\<close>

datatype message =
    TitleRequired
  | TitleEmpty
  | TitleTooLong
  | StorageFull
  | SaveFailed
  | SaveFailedBecause
  | NotPersisted
  | ClearFailed

text \<open>\<open>saveTodos\<close>: \<open>Inl\<close> is the error thrown, \<open>Inr\<close> the environment after a normal return.\<close>

definition saveTodos :: "window \<Rightarrow> Todo list \<Rightarrow> message + window" where
  "saveTodos w todos =
     (case w of
        NoStorage \<Rightarrow> Inr w
      | StorageThrows \<Rightarrow> Inl SaveFailed
      | Storage ls \<Rightarrow>
          (case setItem_outcome ls (stringify todos) of
             Accepted \<Rightarrow> Inr (Storage (ls \<lparr> item := Text (stringify todos) \<rparr>))
           | QuotaExceededError \<Rightarrow> Inl StorageFull
           | OtherError \<Rightarrow> Inl SaveFailed))"

definition clearTodos :: "window \<Rightarrow> message + window" where
  "clearTodos w =
     (case w of
        NoStorage \<Rightarrow> Inr w
      | StorageThrows \<Rightarrow> Inl ClearFailed
      | Storage ls \<Rightarrow>
          if removeItem_throws ls then Inl ClearFailed else Inr (Storage (ls \<lparr> item := NoItem \<rparr>)))"

text \<open>
  What \<open>loadTodos\<close> returns is typed \<open>Todo[]\<close> by a cast; at run time \<open>id\<close> and \<open>title\<close> hold
  whatever value the stored element had.
\<close>

record RestoredTodo =
  r_id :: json
  r_title :: json
  r_completed :: bool
  r_createdAt :: Date

definition typed :: "Todo \<Rightarrow> RestoredTodo" where
  "typed todo = \<lparr> r_id = JStr (id todo), r_title = JStr (title todo),
                  r_completed = completed todo, r_createdAt = createdAt todo \<rparr>"

text \<open>
  \<open>new Date(v)\<close> on an object or array \<open>v\<close> first asks for a primitive (\<open>ToPrimitive\<close>).
  No property of a parsed value is callable, so an own \<open>toString\<close> of a parsed object hides
  \<open>Object.prototype.toString\<close>; \<open>valueOf\<close> gives the object itself or is hidden as well, no
  primitive is found and a \<open>TypeError\<close> is thrown. An array is joined, which converts every
  element other than \<open>null\<close> to a string and throws for the same objects, at any depth.
  Strings, numbers and booleans never throw.
\<close>

datatype exception = TypeError

fun to_primitive_throws :: "json \<Rightarrow> bool" where
  "to_primitive_throws (JObj props) = (map_of props (ascii ''toString'') \<noteq> None)"
| "to_primitive_throws (JArr elements) = (\<exists>e\<in>set elements. to_primitive_throws e)"
| "to_primitive_throws JNull = False"
| "to_primitive_throws (JBool b) = False"
| "to_primitive_throws (JNum n) = False"
| "to_primitive_throws (JInfinity p) = False"
| "to_primitive_throws (JStr s) = False"

text \<open>
  \<open>new Date(todoObj.createdAt || Date.now())\<close>: \<open>Inl\<close> is the exception thrown. \<open>new_Date v\<close> is
  the date the platform makes of a truthy stored value \<open>v\<close> when it does not throw, and
  \<open>now\<close> the reading of \<open>Date.now()\<close>, of which \<open>new Date\<close> makes the date at that instant.
\<close>

definition created_date :: "(json \<Rightarrow> Date) \<Rightarrow> int \<Rightarrow> json option \<Rightarrow> exception + Date" where
  "created_date new_Date now stored_createdAt =
     (case stored_createdAt of
        Some v \<Rightarrow>
          if truthy v then (if to_primitive_throws v then Inl TypeError else Inr (new_Date v))
          else Inr (Some now)
      | None \<Rightarrow> Inr (Some now))"

text \<open>
  The callback of \<open>parsedTodos.map\<close>: it returns \<open>null\<close> (\<open>Inr None\<close>), returns an item, or
  throws what \<open>new Date\<close> throws.
\<close>

definition restoreTodo ::
  "(json \<Rightarrow> Date) \<Rightarrow> int \<Rightarrow> json \<Rightarrow> exception + RestoredTodo option" where
  "restoreTodo new_Date now todo =
     (case todo of
        JObj props \<Rightarrow>
          (case (map_of props (ascii ''id''), map_of props (ascii ''title''),
                 map_of props (ascii ''completed'')) of
             (Some i, Some t, Some c) \<Rightarrow>
               (case c of
                  JBool b \<Rightarrow>
                    if \<not> truthy i \<or> \<not> truthy t then Inr None
                    else (case created_date new_Date now (map_of props (ascii ''createdAt'')) of
                            Inl x \<Rightarrow> Inl x
                          | Inr d \<Rightarrow>
                              Inr (Some \<lparr> r_id = i, r_title = t, r_completed = b, r_createdAt = d \<rparr>))
                | _ \<Rightarrow> Inr None)
           | _ \<Rightarrow> Inr None)
      | _ \<Rightarrow> Inr None)"

text \<open>
  \<open>parsedTodos.map\<close> from index \<open>n\<close> on: the results of the callback in order, or the
  exception of the first callback that throws. \<open>clock k\<close> is the reading of \<open>Date.now()\<close>
  while element \<open>k\<close> is mapped.
\<close>

fun restore_from ::
  "(json \<Rightarrow> Date) \<Rightarrow> (nat \<Rightarrow> int) \<Rightarrow> nat \<Rightarrow> json list \<Rightarrow> exception + RestoredTodo option list" where
  "restore_from new_Date clock n [] = Inr []"
| "restore_from new_Date clock n (todo # rest) =
     (case restoreTodo new_Date (clock n) todo of
        Inl x \<Rightarrow> Inl x
      | Inr r \<Rightarrow>
          (case restore_from new_Date clock (Suc n) rest of
             Inl x \<Rightarrow> Inl x
           | Inr rs \<Rightarrow> Inr (r # rs)))"

text \<open>\<open>.filter(todo => todo !== null)\<close>\<close>

definition without_nulls :: "RestoredTodo option list \<Rightarrow> RestoredTodo list" where
  "without_nulls rs = List.map_filter (\<lambda>r. r) rs"

text \<open>
  \<open>loadTodos\<close>: every failure inside the \<open>try\<close>, an exception of the callback included,
  ends in the \<open>catch\<close>, which returns the empty list.
\<close>

definition loadTodos :: "(json \<Rightarrow> Date) \<Rightarrow> (nat \<Rightarrow> int) \<Rightarrow> window \<Rightarrow> RestoredTodo list" where
  "loadTodos new_Date clock w =
     (case w of
        NoStorage \<Rightarrow> []
      | StorageThrows \<Rightarrow> []
      | Storage ls \<Rightarrow>
          (case item ls of
             NoItem \<Rightarrow> []
           | EmptyText \<Rightarrow> []
           | Malformed \<Rightarrow> []
           | Text parsedTodos \<Rightarrow>
               (case parsedTodos of
                  JArr elements \<Rightarrow>
                    (case restore_from new_Date clock 0 elements of
                       Inl x \<Rightarrow> []
                     | Inr rs \<Rightarrow> without_nulls rs)
                | _ \<Rightarrow> [])))"

section \<open>A reader of the text \<open>toISOString\<close> writes\<close>

definition digit_value :: "jschar \<Rightarrow> nat option" where
  "digit_value c = (if 0x30 \<le> c \<and> c \<le> 0x39 then Some (unat c - 48) else None)"

fun digits_value :: "nat \<Rightarrow> jsstring \<Rightarrow> nat option" where
  "digits_value acc [] = Some acc"
| "digits_value acc (c # cs) =
     (case digit_value c of None \<Rightarrow> None | Some v \<Rightarrow> digits_value (10 * acc + v) cs)"

definition digits_at :: "jsstring \<Rightarrow> nat \<Rightarrow> nat \<Rightarrow> nat option" where
  "digits_at s pos len = digits_value 0 (take len (drop pos s))"

definition DaysInMonth :: "bool \<Rightarrow> nat \<Rightarrow> nat" where
  "DaysInMonth leap m = month_start leap (Suc m) - month_start leap m"

text \<open>The date and time after the year, \<open>-MM-DDTHH:mm:ss.sssZ\<close>, for the year \<open>y\<close>.\<close>

definition parse_after_year :: "int \<Rightarrow> jsstring \<Rightarrow> Date" where
  "parse_after_year y s =
     (if length s \<noteq> 20 \<or> s ! 0 # s ! 3 # s ! 6 # s ! 9 # s ! 12 # s ! 15 # [s ! 19] \<noteq> ascii ''--T::.Z''
      then None
      else case (digits_at s 1 2, digits_at s 4 2, digits_at s 7 2, digits_at s 10 2, digits_at s 13 2, digits_at s 16 3) of
        (Some mo, Some dd, Some hh, Some mi, Some ss, Some ms) \<Rightarrow>
          if mo < 1 \<or> 12 < mo \<or> dd < 1 \<or> DaysInMonth (InLeapYear y) (mo - 1) < dd \<or>
             23 < hh \<or> 59 < mi \<or> 59 < ss
          then None
          else TimeClip
                 ((DayFromYear y + int (month_start (InLeapYear y) (mo - 1)) + int dd - 1) * msPerDay
                  + int hh * 3600000 + int mi * 60000 + int ss * 1000 + int ms)
      | _ \<Rightarrow> None)"

definition parse_iso :: "jsstring \<Rightarrow> Date" where
  "parse_iso s =
     (if take 1 s = ascii ''+'' \<or> take 1 s = ascii ''-'' then
        (case digits_at s 1 6 of
           Some y \<Rightarrow>
             if length s \<noteq> 27 \<or> (take 1 s = ascii ''-'' \<and> y = 0) then None
             else parse_after_year (if take 1 s = ascii ''-'' then - int y else int y) (drop 7 s)
         | None \<Rightarrow> None)
      else
        (case digits_at s 0 4 of
           Some y \<Rightarrow> if length s \<noteq> 24 then None else parse_after_year (int y) (drop 4 s)
         | None \<Rightarrow> None))"

text \<open>
  An instance of \<open>new Date(v)\<close> for the examples: a string is read in the format of
  \<open>toISOString\<close> and is an Invalid Date otherwise, a number is truncated and clipped, a
  boolean is its number. An array or an object on which \<open>new Date\<close> does not throw goes
  through the platform's own conversion to a string and its own date parser, which are not
  modelled; the instance answers Invalid Date.
\<close>

fun Date_of_value :: "json \<Rightarrow> Date" where
  "Date_of_value (JStr s) = parse_iso s"
| "Date_of_value (JNum n) = TimeClip (if 0 \<le> n then \<lfloor>n\<rfloor> else \<lceil>n\<rceil>)"
| "Date_of_value (JInfinity _) = None"
| "Date_of_value (JBool b) = Some (if b then 1 else 0)"
| "Date_of_value JNull = Some 0"
| "Date_of_value (JArr _) = None"
| "Date_of_value (JObj _) = None"

section \<open>Validation (TodoService.validateTodoTitle)\<close>

record validation =
  isValid :: bool
  v_error :: "message option"

definition validateTodoTitle :: "jsstring \<Rightarrow> validation" where
  "validateTodoTitle t =
     (if t = [] then \<lparr> isValid = False, v_error = Some TitleRequired \<rparr>
      else if length (trim t) = 0 then \<lparr> isValid = False, v_error = Some TitleEmpty \<rparr>
      else if length (trim t) > 500 then \<lparr> isValid = False, v_error = Some TitleTooLong \<rparr>
      else \<lparr> isValid = True, v_error = None \<rparr>)"

section \<open>The hooks (hooks/useLocalStorage.ts, hooks/useTodos.ts)\<close>

text \<open>
  The state of \<open>useTodos\<close>: the collection held by \<open>useLocalStorage\<close> (\<open>storedValue\<close>), its
  error, the error of \<open>useTodos\<close> itself, and the environment. \<open>isLoading\<close> is false again
  after every operation and is left out.
\<close>

record hook =
  todos :: "Todo list"
  storageError :: "message option"
  error :: "message option"
  env :: window

text \<open>\<open>setValue\<close> of \<open>useLocalStorage\<close>: the value is set in memory first, then written.\<close>

definition setValue :: "Todo list \<Rightarrow> hook \<Rightarrow> hook" where
  "setValue valueToStore h =
     (let h1 = h \<lparr> todos := valueToStore \<rparr> in
      case env h of
        NoStorage \<Rightarrow> h1 \<lparr> storageError := Some NotPersisted \<rparr>
      | StorageThrows \<Rightarrow> h1 \<lparr> storageError := Some SaveFailedBecause \<rparr>
      | Storage ls \<Rightarrow>
          (case setItem_outcome ls (stringify valueToStore) of
             Accepted \<Rightarrow> h1 \<lparr> env := Storage (ls \<lparr> item := Text (stringify valueToStore) \<rparr>),
                              storageError := None \<rparr>
           | QuotaExceededError \<Rightarrow> h1 \<lparr> storageError := Some StorageFull \<rparr>
           | OtherError \<Rightarrow> h1 \<lparr> storageError := Some SaveFailedBecause \<rparr>))"

text \<open>
  The common tail of the mutations of \<open>useTodos\<close>: \<open>setError(null)\<close>, \<open>setTodos(updatedTodos)\<close>,
  then \<open>TodoService.saveTodos(updatedTodos)\<close>, whose error the \<open>catch\<close> puts in \<open>error\<close>.
\<close>

definition commit :: "Todo list \<Rightarrow> hook \<Rightarrow> hook" where
  "commit updatedTodos h =
     (let h1 = setValue updatedTodos (h \<lparr> error := None \<rparr>) in
      case saveTodos (env h1) updatedTodos of
        Inl m \<Rightarrow> h1 \<lparr> error := Some m \<rparr>
      | Inr w \<Rightarrow> h1 \<lparr> env := w \<rparr>)"

definition useTodos_addTodo :: "jsstring \<Rightarrow> int \<Rightarrow> CreateTodoInput \<Rightarrow> hook \<Rightarrow> hook" where
  "useTodos_addTodo uuid now input h =
     (let validation = validateTodoTitle (i_title input) in
      if \<not> isValid validation then h \<lparr> error := v_error validation \<rparr>
      else commit (todos h @ [createTodo uuid now input]) h)"

definition useTodos_updateTodo :: "jsstring \<Rightarrow> TodoUpdate \<Rightarrow> hook \<Rightarrow> hook" where
  "useTodos_updateTodo i updates h =
     (case u_title updates of
        Some t \<Rightarrow>
          if \<not> isValid (validateTodoTitle t) then h \<lparr> error := v_error (validateTodoTitle t) \<rparr>
          else commit (updateTodo (todos h) i updates) h
      | None \<Rightarrow> commit (updateTodo (todos h) i updates) h)"

definition useTodos_deleteTodo :: "jsstring \<Rightarrow> hook \<Rightarrow> hook" where
  "useTodos_deleteTodo i h = commit (deleteTodo (todos h) i) h"

definition useTodos_toggleComplete :: "jsstring \<Rightarrow> hook \<Rightarrow> hook" where
  "useTodos_toggleComplete i h = commit (toggleComplete (todos h) i) h"

definition clearAllTodos :: "hook \<Rightarrow> hook" where
  "clearAllTodos h =
     (let h1 = setValue [] (h \<lparr> error := None \<rparr>) in
      case clearTodos (env h1) of
        Inl m \<Rightarrow> h1 \<lparr> error := Some m \<rparr>
      | Inr w \<Rightarrow> h1 \<lparr> env := w \<rparr>)"

definition clearCompletedTodos :: "hook \<Rightarrow> hook" where
  "clearCompletedTodos h = commit (filter (\<lambda>todo. \<not> completed todo) (todos h)) h"

text \<open>The user's intents; an addition carries the identifier and the time it will draw.\<close>

datatype intent =
    AddTodo jsstring int CreateTodoInput
  | UpdateTodo jsstring TodoUpdate
  | DeleteTodo jsstring
  | ToggleComplete jsstring
  | ClearAllTodos
  | ClearCompletedTodos

fun dispatch :: "intent \<Rightarrow> hook \<Rightarrow> hook" where
  "dispatch (AddTodo uuid now input) h = useTodos_addTodo uuid now input h"
| "dispatch (UpdateTodo i updates) h = useTodos_updateTodo i updates h"
| "dispatch (DeleteTodo i) h = useTodos_deleteTodo i h"
| "dispatch (ToggleComplete i) h = useTodos_toggleComplete i h"
| "dispatch ClearAllTodos h = clearAllTodos h"
| "dispatch ClearCompletedTodos h = clearCompletedTodos h"

text \<open>The state after a sequence of intents, one at a time.\<close>

fun run :: "intent list \<Rightarrow> hook \<Rightarrow> hook" where
  "run [] h = h"
| "run (a # as) h = run as (dispatch a h)"

text \<open>The effect an accepted intent has on the collection.\<close>

fun applied :: "intent \<Rightarrow> Todo list \<Rightarrow> Todo list" where
  "applied (AddTodo uuid now input) s = s @ [createTodo uuid now input]"
| "applied (UpdateTodo i updates) s = updateTodo s i updates"
| "applied (DeleteTodo i) s = deleteTodo s i"
| "applied (ToggleComplete i) s = toggleComplete s i"
| "applied ClearAllTodos s = []"
| "applied ClearCompletedTodos s = filter (\<lambda>todo. \<not> completed todo) s"

text \<open>An intent is accepted when it carries no title or a title that passes validation.\<close>

fun accepted :: "intent \<Rightarrow> bool" where
  "accepted (AddTodo uuid now input) = isValid (validateTodoTitle (i_title input))"
| "accepted (UpdateTodo i updates) =
     (case u_title updates of Some t \<Rightarrow> isValid (validateTodoTitle t) | None \<Rightarrow> True)"
| "accepted _ = True"

section \<open>Presentation order (TodoList, \<open>sortedTodos\<close>)\<close>

text \<open>
  The comparator. \<open>getTime()\<close> of an Invalid Date is NaN, and a comparator result of NaN
  counts as 0 in \<open>Array.prototype.sort\<close>. Only the sign of the result is used.
\<close>

definition compareTodos :: "Todo \<Rightarrow> Todo \<Rightarrow> int" where
  "compareTodos a b =
     (if completed a \<noteq> completed b then (if completed a then 1 else - 1)
      else case (createdAt b, createdAt a) of
             (Some tb, Some ta) \<Rightarrow> tb - ta
           | _ \<Rightarrow> 0)"

text \<open>
  \<open>Array.prototype.sort\<close> is stable: with a consistent comparator its result is the one
  ordered arrangement that keeps equal elements in their order, which insertion from the
  right computes.
\<close>

fun insert_sorted :: "('a \<Rightarrow> 'a \<Rightarrow> int) \<Rightarrow> 'a \<Rightarrow> 'a list \<Rightarrow> 'a list" where
  "insert_sorted cmp x [] = [x]"
| "insert_sorted cmp x (y # ys) =
     (if cmp x y \<le> 0 then x # y # ys else y # insert_sorted cmp x ys)"

definition array_sort :: "('a \<Rightarrow> 'a \<Rightarrow> int) \<Rightarrow> 'a list \<Rightarrow> 'a list" where
  "array_sort cmp xs = foldr (insert_sorted cmp) xs []"

text \<open>
  Arrays live in a store and are named by their position in it. The spread \<open>[...todos]\<close>
  allocates a copy, and \<open>sort\<close> rearranges the array it is called on in place.
\<close>

type_synonym store = "Todo list list"

definition spread :: "store \<Rightarrow> nat \<Rightarrow> store \<times> nat" where
  "spread st a = (st @ [st ! a], length st)"

definition sort_in_place :: "(Todo \<Rightarrow> Todo \<Rightarrow> int) \<Rightarrow> store \<Rightarrow> nat \<Rightarrow> store" where
  "sort_in_place cmp st a = st[a := array_sort cmp (st ! a)]"

definition sortedTodos :: "store \<Rightarrow> nat \<Rightarrow> store \<times> nat" where
  "sortedTodos st todos_ref =
     (let (st1, copy) = spread st todos_ref in (sort_in_place compareTodos st1 copy, copy))"

text \<open>The order the comparator induces on items with valid dates: active first, then newest first.\<close>

definition sort_key_of :: "Todo \<Rightarrow> bool \<times> int" where
  "sort_key_of todo = (completed todo, - the (createdAt todo))"

section \<open>Well-formed items\<close>

definition well_formed :: "Todo \<Rightarrow> bool" where
  "well_formed todo \<longleftrightarrow>
     id todo \<noteq> [] \<and> trim (title todo) \<noteq> [] \<and> length (trim (title todo)) \<le> 500 \<and>
     createdAt todo \<noteq> None"

definition title_ok :: "Todo \<Rightarrow> bool" where
  "title_ok todo \<longleftrightarrow> title todo \<noteq> [] \<and> trim (title todo) \<noteq> []"

text \<open>
  The elements \<open>loadTodos\<close> keeps: objects that have the keys \<open>id\<close>, \<open>title\<close> and
  \<open>completed\<close>, with a truthy \<open>id\<close>, a truthy \<open>title\<close> and a boolean \<open>completed\<close>.
\<close>

definition kept :: "json \<Rightarrow> bool" where
  "kept e =
     (case e of
        JObj props \<Rightarrow>
          (case (map_of props (ascii ''id''), map_of props (ascii ''title''),
                 map_of props (ascii ''completed'')) of
             (Some i, Some t, Some (JBool b)) \<Rightarrow> truthy i \<and> truthy t
           | _ \<Rightarrow> False)
      | _ \<Rightarrow> False)"

text \<open>The elements on which the callback throws: kept ones whose truthy \<open>createdAt\<close> makes
  \<open>new Date\<close> throw.\<close>

definition callback_throws :: "json \<Rightarrow> bool" where
  "callback_throws e =
     (kept e \<and>
      (case e of
         JObj props \<Rightarrow>
           (case map_of props (ascii ''createdAt'') of
              Some v \<Rightarrow> truthy v \<and> to_primitive_throws v
            | None \<Rightarrow> False)
       | _ \<Rightarrow> False))"

section \<open>Example environments\<close>

text \<open>A storage holding \<open>content\<close> that accepts every write, and a clock standing at \<open>t\<close>.\<close>

definition accepting_storage :: "stored \<Rightarrow> LocalStorage" where
  "accepting_storage content =
     \<lparr> item = content, setItem_outcome = (\<lambda>v. Accepted), removeItem_throws = False \<rparr>"

definition full_storage :: "stored \<Rightarrow> LocalStorage" where
  "full_storage content =
     \<lparr> item = content, setItem_outcome = (\<lambda>v. QuotaExceededError), removeItem_throws = False \<rparr>"

definition steady_clock :: "int \<Rightarrow> nat \<Rightarrow> int" where
  "steady_clock t k = t"

text \<open>The state of the hooks on a first start: nothing stored, nothing in memory.\<close>

definition initial :: "window \<Rightarrow> hook" where
  "initial w = \<lparr> todos = [], storageError = None, error = None, env = w \<rparr>"

section \<open>Properties of the collection operations\<close>

lemma toggle_twice: "toggleComplete (toggleComplete s i) i = s"
  unfolding toggleComplete_def by (induction s) auto

lemma absent_map_id: "i \<notin> id ` set s \<Longrightarrow> map (\<lambda>todo. if id todo = i then f todo else todo) s = s"
  by (induction s) auto

lemma absent_filter_id: "i \<notin> id ` set s \<Longrightarrow> filter (\<lambda>todo. id todo \<noteq> i) s = s"
  by (induction s) auto

text \<open>
  C5, as amended. For an id present in the collection, \<open>updateTodo\<close> keeps the length and the
  position of every item, leaves the items with another id alone, and replaces each matching
  item by the merge: id and createdAt kept, completed taken from the update when provided,
  title taken from the update and trimmed when a non-empty title is provided. A provided
  empty-string title leaves the existing title in place.
\<close>

theorem updateTodo_merge:
  assumes "i \<in> id ` set s"
  shows "length (updateTodo s i u) = length s \<and>
         (\<forall>k<length s.
            (id (s ! k) \<noteq> i \<longrightarrow> updateTodo s i u ! k = s ! k) \<and>
            (id (s ! k) = i \<longrightarrow>
               id (updateTodo s i u ! k) = i \<and>
               createdAt (updateTodo s i u ! k) = createdAt (s ! k) \<and>
               completed (updateTodo s i u ! k) =
                 (case u_completed u of Some c \<Rightarrow> c | None \<Rightarrow> completed (s ! k)) \<and>
               title (updateTodo s i u ! k) =
                 (case u_title u of
                    None \<Rightarrow> title (s ! k)
                  | Some t \<Rightarrow> if t = [] then title (s ! k) else trim t)))"
  by (auto simp: updateTodo_def update_one_def split: option.splits)

theorem updateTodo_merge_witness:
  "title (updateTodo [\<lparr> id = ascii ''1'', title = ascii ''a'', completed = False, createdAt = Some 0 \<rparr>]
            (ascii ''1'') \<lparr> u_title = Some (ascii '' b ''), u_completed = Some True \<rparr> ! 0) = ascii ''b'' \<and>
   completed (updateTodo [\<lparr> id = ascii ''1'', title = ascii ''a'', completed = False, createdAt = Some 0 \<rparr>]
            (ascii ''1'') \<lparr> u_title = Some (ascii '' b ''), u_completed = Some True \<rparr> ! 0)"
  using updateTodo_merge [of "ascii ''1''"
     "[\<lparr> id = ascii ''1'', title = ascii ''a'', completed = False, createdAt = Some 0 \<rparr>]"
     "\<lparr> u_title = Some (ascii '' b ''), u_completed = Some True \<rparr>"]
  by (simp add: ascii_def trim_def is_whitespace_def)

text \<open>
  C5, as stated, fails when the provided title is the empty string: the stored title is the
  existing one, not the (empty) trimmed provided title.
\<close>

theorem updateTodo_empty_title_counterexample:
  "map title (updateTodo [\<lparr> id = ascii ''1'', title = ascii ''a'', completed = False, createdAt = Some 0 \<rparr>]
                (ascii ''1'') \<lparr> u_title = Some [], u_completed = None \<rparr>) = [ascii ''a''] \<and>
   ascii ''a'' \<noteq> trim []"
  by (simp add: updateTodo_def update_one_def ascii_def trim_def)

text \<open>
  C6. For an id present in the collection, toggling it twice gives the collection back; one
  toggle keeps every position, flips \<open>completed\<close> on the items with that id and changes no
  other field of any item.
\<close>

theorem toggle_involution:
  assumes "i \<in> id ` set s"
  shows "toggleComplete (toggleComplete s i) i = s \<and>
         length (toggleComplete s i) = length s \<and>
         (\<forall>k<length s.
            id (toggleComplete s i ! k) = id (s ! k) \<and>
            title (toggleComplete s i ! k) = title (s ! k) \<and>
            createdAt (toggleComplete s i ! k) = createdAt (s ! k) \<and>
            completed (toggleComplete s i ! k) =
              (if id (s ! k) = i then \<not> completed (s ! k) else completed (s ! k)))"
  by (simp add: toggle_twice) (simp add: toggleComplete_def)

theorem toggle_involution_witness:
  "toggleComplete (toggleComplete
      [\<lparr> id = ascii ''1'', title = ascii ''a'', completed = False, createdAt = Some 0 \<rparr>,
       \<lparr> id = ascii ''2'', title = ascii ''b'', completed = True, createdAt = Some 5 \<rparr>] (ascii ''2'')) (ascii ''2'')
   = [\<lparr> id = ascii ''1'', title = ascii ''a'', completed = False, createdAt = Some 0 \<rparr>,
      \<lparr> id = ascii ''2'', title = ascii ''b'', completed = True, createdAt = Some 5 \<rparr>]"
  using toggle_involution [of "ascii ''2''"
      "[\<lparr> id = ascii ''1'', title = ascii ''a'', completed = False, createdAt = Some 0 \<rparr>,
        \<lparr> id = ascii ''2'', title = ascii ''b'', completed = True, createdAt = Some 5 \<rparr>]"]
  by (simp add: ascii_def)

text \<open>
  C7. For an id that no item of the collection has, \<open>updateTodo\<close> (with any update),
  \<open>deleteTodo\<close> and \<open>toggleComplete\<close> each return the collection unchanged.
\<close>

theorem absent_id_noop:
  assumes "i \<notin> id ` set s"
  shows "updateTodo s i u = s \<and> deleteTodo s i = s \<and> toggleComplete s i = s"
  using assms
  by (simp add: updateTodo_def deleteTodo_def toggleComplete_def absent_map_id absent_filter_id)

theorem absent_id_noop_witness:
  "updateTodo [\<lparr> id = ascii ''1'', title = ascii ''a'', completed = False, createdAt = Some 0 \<rparr>]
      (ascii ''9'') \<lparr> u_title = Some (ascii ''z''), u_completed = Some True \<rparr>
     = [\<lparr> id = ascii ''1'', title = ascii ''a'', completed = False, createdAt = Some 0 \<rparr>] \<and>
   deleteTodo [\<lparr> id = ascii ''1'', title = ascii ''a'', completed = False, createdAt = Some 0 \<rparr>] (ascii ''9'')
     = [\<lparr> id = ascii ''1'', title = ascii ''a'', completed = False, createdAt = Some 0 \<rparr>] \<and>
   toggleComplete [\<lparr> id = ascii ''1'', title = ascii ''a'', completed = False, createdAt = Some 0 \<rparr>] (ascii ''9'')
     = [\<lparr> id = ascii ''1'', title = ascii ''a'', completed = False, createdAt = Some 0 \<rparr>]"
  using absent_id_noop [of "ascii ''9''"
      "[\<lparr> id = ascii ''1'', title = ascii ''a'', completed = False, createdAt = Some 0 \<rparr>]"
      "\<lparr> u_title = Some (ascii ''z''), u_completed = Some True \<rparr>"]
  by (simp add: ascii_def)

text \<open>
  C9. Whatever the number of items sharing an id, \<open>updateTodo\<close> and \<open>toggleComplete\<close> change
  every item with that id (each position holding it, not only the first): after an update
  each of them has the provided completed flag and the trimmed provided non-empty title,
  with its id and createdAt kept, and after a toggle each of them has its completed flag
  negated. \<open>deleteTodo\<close> removes every item with that id while keeping all the others in
  order.
\<close>

theorem duplicate_id_all_matches:
  "length (updateTodo s i u) = length s \<and>
   length (toggleComplete s i) = length s \<and>
   (\<forall>k<length s. id (s ! k) = i \<longrightarrow>
      id (updateTodo s i u ! k) = i \<and>
      createdAt (updateTodo s i u ! k) = createdAt (s ! k) \<and>
      completed (updateTodo s i u ! k) =
        (case u_completed u of Some c \<Rightarrow> c | None \<Rightarrow> completed (s ! k)) \<and>
      title (updateTodo s i u ! k) =
        (case u_title u of
           None \<Rightarrow> title (s ! k)
         | Some t \<Rightarrow> if t = [] then title (s ! k) else trim t) \<and>
      toggleComplete s i ! k = (s ! k) \<lparr> completed := \<not> completed (s ! k) \<rparr>) \<and>
   i \<notin> id ` set (deleteTodo s i) \<and>
   deleteTodo s i = filter (\<lambda>todo. id todo \<noteq> i) s \<and>
   length (deleteTodo s i) + length (filter (\<lambda>todo. id todo = i) s) = length s"
proof -
  have "length (filter (\<lambda>todo. id todo \<noteq> i) s) + length (filter (\<lambda>todo. id todo = i) s) = length s"
    by (induction s) auto
  then show ?thesis
    by (auto simp: updateTodo_def update_one_def toggleComplete_def deleteTodo_def
          split: option.splits)
qed

theorem duplicate_id_all_matches_witness:
  "updateTodo
      [\<lparr> id = ascii ''1'', title = ascii ''a'', completed = False, createdAt = Some 0 \<rparr>,
       \<lparr> id = ascii ''2'', title = ascii ''b'', completed = False, createdAt = Some 1 \<rparr>,
       \<lparr> id = ascii ''1'', title = ascii ''c'', completed = True, createdAt = Some 2 \<rparr>] (ascii ''1'')
      \<lparr> u_title = Some (ascii '' z ''), u_completed = Some True \<rparr>
     = [\<lparr> id = ascii ''1'', title = ascii ''z'', completed = True, createdAt = Some 0 \<rparr>,
        \<lparr> id = ascii ''2'', title = ascii ''b'', completed = False, createdAt = Some 1 \<rparr>,
        \<lparr> id = ascii ''1'', title = ascii ''z'', completed = True, createdAt = Some 2 \<rparr>] \<and>
   toggleComplete
      [\<lparr> id = ascii ''1'', title = ascii ''a'', completed = False, createdAt = Some 0 \<rparr>,
       \<lparr> id = ascii ''2'', title = ascii ''b'', completed = False, createdAt = Some 1 \<rparr>,
       \<lparr> id = ascii ''1'', title = ascii ''c'', completed = True, createdAt = Some 2 \<rparr>] (ascii ''1'')
     = [\<lparr> id = ascii ''1'', title = ascii ''a'', completed = True, createdAt = Some 0 \<rparr>,
        \<lparr> id = ascii ''2'', title = ascii ''b'', completed = False, createdAt = Some 1 \<rparr>,
        \<lparr> id = ascii ''1'', title = ascii ''c'', completed = False, createdAt = Some 2 \<rparr>] \<and>
   deleteTodo
      [\<lparr> id = ascii ''1'', title = ascii ''a'', completed = False, createdAt = Some 0 \<rparr>,
       \<lparr> id = ascii ''2'', title = ascii ''b'', completed = False, createdAt = Some 1 \<rparr>,
       \<lparr> id = ascii ''1'', title = ascii ''c'', completed = True, createdAt = Some 2 \<rparr>] (ascii ''1'')
     = [\<lparr> id = ascii ''2'', title = ascii ''b'', completed = False, createdAt = Some 1 \<rparr>]"
  using duplicate_id_all_matches [of
      "[\<lparr> id = ascii ''1'', title = ascii ''a'', completed = False, createdAt = Some 0 \<rparr>,
       \<lparr> id = ascii ''2'', title = ascii ''b'', completed = False, createdAt = Some 1 \<rparr>,
       \<lparr> id = ascii ''1'', title = ascii ''c'', completed = True, createdAt = Some 2 \<rparr>]"
      "ascii ''1''" "\<lparr> u_title = Some (ascii '' z ''), u_completed = Some True \<rparr>"]
  by (simp add: updateTodo_def update_one_def toggleComplete_def deleteTodo_def trim_def
        is_whitespace_def ascii_def)

section \<open>Properties of the date text\<close>

text \<open>The length of a year, and the year of a day.\<close>

lemma div_step: "0 < n \<Longrightarrow> (x + 1) div n = x div n + (if (x + 1) mod n = 0 then 1 else (0::int))"
proof -
  assume n: "0 < n"
  show ?thesis
  proof (cases "(x + 1) mod n = 0")
    case True
    then obtain q where q: "x + 1 = n * q" by (metis mod_eq_0_iff_dvd dvd_def)
    then have x: "x = n * (q - 1) + (n - 1)" by (simp add: algebra_simps)
    have "x div n = q - 1"
      using n by (subst x) simp
    moreover have "(x + 1) div n = q" using q n by simp
    ultimately show ?thesis using True by simp
  next
    case False
    have "x mod n + 1 < n"
    proof (rule ccontr)
      assume "\<not> x mod n + 1 < n"
      moreover have "x mod n < n" using n by simp
      ultimately have "x mod n = n - 1" by simp
      then have "(x + 1) mod n = (n - 1 + 1) mod n" by (metis mod_add_left_eq)
      with False show False by simp
    qed
    moreover have "0 \<le> x mod n" using n by simp
    ultimately have "(x mod n + 1) div n = 0" by simp
    moreover have "x + 1 = n * (x div n) + (x mod n + 1)" by simp
    ultimately have "(x + 1) div n = x div n"
      by (metis add.commute add.right_neutral div_mult_self2 n less_irrefl)
    with False show ?thesis by simp
  qed
qed

lemma mod_shift: "(y - n * k) mod n = y mod (n::int)"
proof -
  have "y - n * k = y + n * (- k)" by simp
  then show ?thesis by (metis mod_mult_self2)
qed

lemma dvd_mod_zero: "y mod (m * k) = 0 \<Longrightarrow> y mod m = (0::int)"
  by (metis dvd_mult_left mod_eq_0_iff_dvd)

lemma leap_count:
  "(p100 \<Longrightarrow> p4) \<Longrightarrow> (p400 \<Longrightarrow> p100) \<Longrightarrow>
   (if p4 then 1 else 0) - (if p100 then 1 else 0) + (if p400 then 1 else 0)
     = (if p4 \<and> (\<not> p100 \<or> p400) then 1 else (0::int))"
  by (cases p4; cases p100; cases p400; simp)

lemma year_sum:
  "A' = A + i \<Longrightarrow> B' = B + j \<Longrightarrow> C' = C + k \<Longrightarrow> i - j + k = l \<Longrightarrow>
   365 * (y + 1 - 1970) + A' - B' + C' = 365 * (y - 1970) + A - B + C + 365 + (l::int)"
  by simp

lemma DayFromYear_next:
  "DayFromYear (y + 1) = DayFromYear y + 365 + (if InLeapYear y then 1 else 0)"
proof -
  have "y - 1969 + 1 = y - 4 * 492" "y - 1901 + 1 = y - 100 * 19" "y - 1601 + 1 = y - 400 * 4"
    by simp_all
  then have m4: "(y - 1969 + 1) mod 4 = y mod 4"
    and m100: "(y - 1901 + 1) mod 100 = y mod 100"
    and m400: "(y - 1601 + 1) mod 400 = y mod 400"
    by (simp_all only: mod_shift)
  have s4: "y + 1 - 1969 = y - 1969 + 1" and s100: "y + 1 - 1901 = y - 1901 + 1"
    and s400: "y + 1 - 1601 = y - 1601 + 1"
    by simp_all
  have a: "(y + 1 - 1969) div 4 = (y - 1969) div 4 + (if y mod 4 = 0 then 1 else 0)"
    unfolding s4 using div_step [of 4 "y - 1969"] by (simp only: m4)
  have b: "(y + 1 - 1901) div 100 = (y - 1901) div 100 + (if y mod 100 = 0 then 1 else 0)"
    unfolding s100 using div_step [of 100 "y - 1901"] by (simp only: m100)
  have c: "(y + 1 - 1601) div 400 = (y - 1601) div 400 + (if y mod 400 = 0 then 1 else 0)"
    unfolding s400 using div_step [of 400 "y - 1601"] by (simp only: m400)
  have d4: "y mod 100 = 0 \<Longrightarrow> y mod 4 = 0"
    using dvd_mod_zero [of y 4 25] by simp
  have d100: "y mod 400 = 0 \<Longrightarrow> y mod 100 = 0"
    using dvd_mod_zero [of y 100 4] by simp
  have l: "(if y mod 4 = 0 then 1 else 0) - (if y mod 100 = 0 then 1 else 0)
             + (if y mod 400 = 0 then 1 else 0) = (if InLeapYear y then 1 else (0::int))"
    unfolding InLeapYear_def by (rule leap_count [OF d4 d100])
  show ?thesis
    unfolding DayFromYear_def by (rule year_sum [OF a b c l])
qed

lemma DayFromYear_less: "y < y' \<Longrightarrow> DayFromYear y < DayFromYear y'"
proof (induction y' rule: int_gr_induct)
  case base
  show ?case by (simp add: DayFromYear_next)
next
  case (step i)
  then show ?case by (simp add: DayFromYear_next)
qed

lemma DayFromYear_le: "y \<le> y' \<Longrightarrow> DayFromYear y \<le> DayFromYear y'"
  using DayFromYear_less [of y y'] by (cases "y = y'") auto

lemma DayFromYear_upper: "0 \<le> k \<Longrightarrow> DayFromYear (1970 + k) \<le> 366 * k"
proof (induction k rule: int_ge_induct)
  case base
  show ?case by (simp add: DayFromYear_def)
next
  case (step i)
  have "DayFromYear (1970 + (i + 1)) = DayFromYear (1970 + i + 1)" by (simp add: algebra_simps)
  also have "\<dots> = DayFromYear (1970 + i) + 365 + (if InLeapYear (1970 + i) then 1 else 0)"
    by (rule DayFromYear_next)
  finally show ?case using step by (simp split: if_splits)
qed

lemma mult_div_le_int: "0 < n \<Longrightarrow> n * (d div n) \<le> (d::int)"
proof -
  assume "0 < n"
  then have "0 \<le> d mod n" by simp
  moreover have "n * (d div n) + d mod n = d" by simp
  ultimately show ?thesis by linarith
qed

lemma DayFromYear_lower: "k \<le> 0 \<Longrightarrow> DayFromYear (1970 + k) \<le> 365 * k"
proof (induction k rule: int_le_induct)
  case base
  show ?case by (simp add: DayFromYear_def)
next
  case (step i)
  have "DayFromYear (1970 + i) = DayFromYear (1970 + (i - 1) + 1)" by (simp add: algebra_simps)
  also have "\<dots> = DayFromYear (1970 + (i - 1)) + 365 + (if InLeapYear (1970 + (i - 1)) then 1 else 0)"
    by (rule DayFromYear_next)
  finally show ?case using step by (simp split: if_splits)
qed

lemma year_search_bounds:
  "DayFromYear y \<le> d \<Longrightarrow>
     DayFromYear (year_search d y) \<le> d \<and> d < DayFromYear (year_search d y + 1)"
proof (induction d y rule: year_search.induct)
  case (1 d y)
  show ?case
  proof (cases "DayFromYear (y + 1) \<le> d")
    case True
    then have eq: "year_search d y = year_search d (y + 1)"
      by (subst year_search.simps) simp
    from "1.IH" [OF True True] show ?thesis by (simp only: eq)
  next
    case False
    then have eq: "year_search d y = y"
      by (subst year_search.simps) simp
    with False "1.prems" show ?thesis by simp
  qed
qed


lemma YearFromDay_bounds:
  "DayFromYear (YearFromDay d) \<le> d \<and> d < DayFromYear (YearFromDay d + 1)"
proof -
  have start: "DayFromYear (1970 + (if 0 \<le> d then d div 366 else d div 365)) \<le> d"
  proof (cases "0 \<le> d")
    case True
    then have "0 \<le> d div 366" by (simp add: pos_imp_zdiv_nonneg_iff)
    then have "DayFromYear (1970 + d div 366) \<le> 366 * (d div 366)"
      by (rule DayFromYear_upper)
    also have "\<dots> \<le> d" by (rule mult_div_le_int) simp
    finally show ?thesis using True by simp
  next
    case False
    then have "d div 365 \<le> 0" by (simp add: div_nonpos_pos_le0)
    then have "DayFromYear (1970 + d div 365) \<le> 365 * (d div 365)"
      by (rule DayFromYear_lower)
    also have "\<dots> \<le> d" by (rule mult_div_le_int) simp
    finally show ?thesis using False by simp
  qed
  show ?thesis unfolding YearFromDay_def using start by (rule year_search_bounds)
qed

lemma month_cases:
  fixes diy :: nat
  assumes "diy < t12"
  obtains "diy < t1"
    | "t1 \<le> diy" "diy < t2" | "t2 \<le> diy" "diy < t3" | "t3 \<le> diy" "diy < t4"
    | "t4 \<le> diy" "diy < t5" | "t5 \<le> diy" "diy < t6" | "t6 \<le> diy" "diy < t7"
    | "t7 \<le> diy" "diy < t8" | "t8 \<le> diy" "diy < t9" | "t9 \<le> diy" "diy < t10"
    | "t10 \<le> diy" "diy < t11" | "t11 \<le> diy" "diy < t12"
  using assms by (meson not_le)

lemma MonthFromDay_bounds:
  assumes "diy < 365 + (if leap then 1 else 0)"
  shows "MonthFromDay leap diy < 12 \<and>
         month_start leap (MonthFromDay leap diy) \<le> diy \<and>
         diy < month_start leap (Suc (MonthFromDay leap diy))"
proof (cases leap)
  case True
  with assms have "diy < 366" by simp
  then show ?thesis
    by (rule month_cases [where ?t12.0 = 366 and ?t1.0 = 31 and ?t2.0 = 60 and ?t3.0 = 91 and ?t4.0 = 121
          and ?t5.0 = 152 and ?t6.0 = 182 and ?t7.0 = 213 and ?t8.0 = 244 and ?t9.0 = 274
          and ?t10.0 = 305 and ?t11.0 = 335])
       (simp_all add: True MonthFromDay_def month_start_def)
next
  case False
  with assms have "diy < 365" by simp
  then show ?thesis
    by (rule month_cases [where ?t12.0 = 365 and ?t1.0 = 31 and ?t2.0 = 59 and ?t3.0 = 90 and ?t4.0 = 120
          and ?t5.0 = 151 and ?t6.0 = 181 and ?t7.0 = 212 and ?t8.0 = 243 and ?t9.0 = 273
          and ?t10.0 = 304 and ?t11.0 = 334])
       (simp_all add: False MonthFromDay_def month_start_def)
qed

lemma pad_numeral: "pad (numeral k) n = pad (pred_numeral k) (n div 10) @ [digit n]"
proof -
  have "pad (numeral k) n = pad (Suc (pred_numeral k)) n" by (simp only: numeral_eq_Suc)
  then show ?thesis by (simp only: pad.simps)
qed

lemma length_pad: "length (pad k n) = k"
  by (induction k arbitrary: n) auto

lemma digit_value_digit: "digit_value (digit n) = Some (n mod 10)"
proof -
  define w where "w = (of_nat (48 + n mod 10) :: 16 word)"
  have "n mod 10 < 10" by simp
  then have "48 + n mod 10 < 2 ^ LENGTH(16)" by simp
  then have u: "unat w = 48 + n mod 10"
    unfolding w_def by (rule of_nat_inverse [OF refl])
  have le: "0x30 \<le> w \<and> w \<le> 0x39"
    unfolding word_le_nat_alt u by simp
  have "digit n = w" by (simp only: digit_def w_def)
  with le u show ?thesis by (simp add: digit_value_def)
qed

lemma digit_not_sign: "digit n \<noteq> 0x2B" "digit n \<noteq> 0x2D"
proof -
  have "digit_value (0x2B :: 16 word) = None" "digit_value (0x2D :: 16 word) = None"
    by (simp_all add: digit_value_def)
  then show "digit n \<noteq> 0x2B" "digit n \<noteq> 0x2D"
    using digit_value_digit [of n] by auto
qed

lemma digits_value_snoc:
  "digits_value acc (cs @ [c]) =
     (case digits_value acc cs of
        None \<Rightarrow> None
      | Some v \<Rightarrow> (case digit_value c of None \<Rightarrow> None | Some d \<Rightarrow> Some (10 * v + d)))"
  by (induction cs arbitrary: acc) (auto split: option.splits)

lemma digits_value_pad: "digits_value acc (pad k n) = Some (acc * 10 ^ k + n mod 10 ^ k)"
proof (induction k arbitrary: n)
  case 0
  show ?case by simp
next
  case (Suc k)
  have "n mod (10 * 10 ^ k) = 10 * (n div 10 mod 10 ^ k) + n mod 10"
    by (rule mod_mult2_eq)
  then show ?case
    by (simp add: digits_value_snoc Suc digit_value_digit algebra_simps)
qed

lemma digits_value_pad_small: "n < 10 ^ k \<Longrightarrow> digits_value 0 (pad k n) = Some n"
  by (simp add: digits_value_pad)

lemma pad2: "pad 2 n = [digit (n div 10), digit n]"
  by (simp add: pad_numeral)

lemma pad3: "pad 3 n = [digit (n div 10 div 10), digit (n div 10), digit n]"
  by (simp add: pad_numeral)

lemma two_digits: "n < 100 \<Longrightarrow> digits_value 0 [digit (n div 10), digit n] = Some n"
  using digits_value_pad_small [of n 2] by (simp add: pad2)

lemma three_digits:
  "n < 1000 \<Longrightarrow> digits_value 0 [digit (n div 10 div 10), digit (n div 10), digit n] = Some n"
  using digits_value_pad_small [of n 3] by (simp add: pad3)

lemma parse_after_year_fields:
  assumes "1 \<le> mo" and "mo \<le> 12" and "1 \<le> dd"
    and "dd \<le> DaysInMonth (InLeapYear y) (mo - 1)" and "dd < 100"
    and "hh \<le> 23" and "mi \<le> 59" and "ss \<le> 59" and "ms < 1000"
  shows "parse_after_year y
           (ascii ''-'' @ pad 2 mo @ ascii ''-'' @ pad 2 dd @ ascii ''T'' @ pad 2 hh @ ascii '':'' @
            pad 2 mi @ ascii '':'' @ pad 2 ss @ ascii ''.'' @ pad 3 ms @ ascii ''Z'')
         = TimeClip
             ((DayFromYear y + int (month_start (InLeapYear y) (mo - 1)) + int dd - 1) * msPerDay
              + int hh * 3600000 + int mi * 60000 + int ss * 1000 + int ms)"
proof -
  have f: "digits_value 0 [digit (mo div 10), digit mo] = Some mo"
    "digits_value 0 [digit (dd div 10), digit dd] = Some dd"
    "digits_value 0 [digit (hh div 10), digit hh] = Some hh"
    "digits_value 0 [digit (mi div 10), digit mi] = Some mi"
    "digits_value 0 [digit (ss div 10), digit ss] = Some ss"
    "digits_value 0 [digit (ms div 10 div 10), digit (ms div 10), digit ms] = Some ms"
    using assms by (simp_all only: two_digits three_digits) 
  show ?thesis
    unfolding parse_after_year_def pad2 pad3
    using assms by (simp add: ascii_def digits_at_def f del: digits_value.simps)
qed

lemma pad_Cons: "pad (Suc k) n = hd (pad (Suc k) n) # tl (pad (Suc k) n)"
  by (metis length_pad list.collapse length_0_conv nat.distinct(1))

lemma hd_pad_digit: "\<exists>m. hd (pad (Suc k) n) = digit m"
proof (induction k arbitrary: n)
  case 0
  show ?case by auto
next
  case (Suc k)
  have "pad (Suc k) (n div 10) \<noteq> []"
    by (metis length_pad length_0_conv nat.distinct(1))
  then have "hd (pad (Suc (Suc k)) n) = hd (pad (Suc k) (n div 10))"
    by (simp del: pad.simps add: pad.simps(2) [of "Suc k" n])
  with Suc show ?case by simp
qed

lemma take1_pad:
  "take 1 (pad (Suc k) n @ rest) \<noteq> ascii ''+'' \<and> take 1 (pad (Suc k) n @ rest) \<noteq> ascii ''-''"
proof -
  obtain m where "hd (pad (Suc k) n) = digit m" using hd_pad_digit by blast
  then have "take 1 (pad (Suc k) n @ rest) = [digit m]"
    by (subst pad_Cons) simp
  then show ?thesis by (simp add: ascii_def digit_not_sign)
qed

lemma take1_pad_numeral:
  "take 1 (pad (numeral k) n @ rest) \<noteq> ascii ''+'' \<and>
   take 1 (pad (numeral k) n @ rest) \<noteq> ascii ''-''"
proof -
  have "pad (numeral k) n = pad (Suc (pred_numeral k)) n" by (simp only: numeral_eq_Suc)
  then show ?thesis using take1_pad [of "pred_numeral k" n rest] by (simp del: pad.simps)
qed

lemma parse_iso_year:
  assumes "- 999999 \<le> y" and "y \<le> 999999" and "length rest = 20"
  shows "parse_iso (year_text y @ rest) = parse_after_year y rest"
proof (cases "0 \<le> y \<and> y \<le> 9999")
  case True
  then have "nat y < 10000" by linarith
  then have n: "nat y < 10 ^ 4" by simp
  have t: "take 1 (pad 4 (nat y) @ rest) \<noteq> ascii ''+'' \<and> take 1 (pad 4 (nat y) @ rest) \<noteq> ascii ''-''"
    by (rule take1_pad_numeral)
  have "digits_at (pad 4 (nat y) @ rest) 0 4 = Some (nat y)"
    using digits_value_pad_small [OF n] by (simp add: digits_at_def length_pad)
  with True t assms(3) show ?thesis
    by (simp add: parse_iso_def year_text_def length_pad)
next
  case False
  then have "nat \<bar>y\<bar> < 1000000" and nz: "nat \<bar>y\<bar> \<noteq> 0" using assms by linarith+
  then have n: "nat \<bar>y\<bar> < 10 ^ 6" by simp
  have d: "digits_at (c # pad 6 (nat \<bar>y\<bar>) @ rest) 1 6 = Some (nat \<bar>y\<bar>)" for c
    using digits_value_pad_small [OF n] by (simp add: digits_at_def length_pad)
  show ?thesis
  proof (cases "y < 0")
    case True
    with False d nz assms(3) show ?thesis
      by (simp add: parse_iso_def year_text_def length_pad ascii_def)
  next
    case False
    with \<open>\<not> (0 \<le> y \<and> y \<le> 9999)\<close> d nz assms(3) show ?thesis
      by (simp add: parse_iso_def year_text_def length_pad ascii_def)
  qed
qed

lemma time_of_day:
  "ms div 3600000 * 3600000 + ms div 60000 mod 60 * 60000 + ms div 1000 mod 60 * 1000 + ms mod 1000
     = (ms::nat)"
proof -
  define a where "a = ms div 1000"
  define b where "b = a div 60"
  have b1: "ms div 60000 = b"
    using div_mult2_eq [of ms 1000 60] by (simp add: a_def b_def)
  have b2: "ms div 3600000 = b div 60"
    using div_mult2_eq [of ms 60000 60] by (simp add: b1)
  define q where "q = b div 60"
  define r where "r = b mod 60"
  define r' where "r' = a mod 60"
  define r'' where "r'' = ms mod 1000"
  have e1: "60 * q + r = b" unfolding q_def r_def by (rule mult_div_mod_eq)
  have e2: "60 * b + r' = a" unfolding b_def r'_def by (rule mult_div_mod_eq)
  have e3: "1000 * a + r'' = ms" unfolding a_def r''_def by (rule mult_div_mod_eq)
  have "q * 3600000 + r * 60000 + r' * 1000 + r'' = ms"
    using e1 e2 e3 by simp
  then show ?thesis
    unfolding b1 b2 a_def [symmetric] q_def r_def r'_def r''_def .
qed

lemma day_bounds:
  assumes "\<bar>t\<bar> \<le> 8640000000000000"
  shows "- 100000000 \<le> t div msPerDay \<and> t div msPerDay \<le> 100000000"
proof -
  have "(- 8640000000000000) div msPerDay \<le> t div msPerDay"
    using assms by (intro zdiv_mono1) (simp_all add: msPerDay_def)
  moreover have "t div msPerDay \<le> 8640000000000000 div msPerDay"
    using assms by (intro zdiv_mono1) (simp_all add: msPerDay_def)
  ultimately show ?thesis by (simp add: msPerDay_def)
qed

lemma year_bounds:
  assumes "- 100000000 \<le> d" and "d \<le> 100000000"
  shows "- 999999 \<le> YearFromDay d \<and> YearFromDay d \<le> 999999"
proof -
  have lo: "DayFromYear (YearFromDay d) \<le> d" and hi: "d < DayFromYear (YearFromDay d + 1)"
    using YearFromDay_bounds [of d] by simp_all
  have "\<not> 275761 \<le> YearFromDay d"
  proof
    assume "275761 \<le> YearFromDay d"
    then have "DayFromYear 275761 \<le> DayFromYear (YearFromDay d)" by (rule DayFromYear_le)
    moreover have "DayFromYear 275761 = 100000110" by (simp add: DayFromYear_def)
    ultimately show False using lo assms(2) by simp
  qed
  moreover have "\<not> YearFromDay d + 1 \<le> - 271821"
  proof
    assume "YearFromDay d + 1 \<le> - 271821"
    then have "DayFromYear (YearFromDay d + 1) \<le> DayFromYear (- 271821)" by (rule DayFromYear_le)
    moreover have "DayFromYear (- 271821) = - 100000109" by (simp add: DayFromYear_def)
    ultimately show False using hi assms(1) by simp
  qed
  ultimately show ?thesis by simp
qed

lemma DaysInMonth_le: "m < 12 \<Longrightarrow> DaysInMonth leap m \<le> 31"
proof -
  assume "m < 12"
  then have "m < Suc (Suc (Suc (Suc (Suc (Suc (Suc (Suc (Suc (Suc (Suc (Suc 0)))))))))))"
    by simp
  then show ?thesis
    by (elim less_SucE) (simp_all add: DaysInMonth_def month_start_def)
qed

lemma reads_back:
  assumes "\<bar>t\<bar> \<le> 8640000000000000"
  shows "parse_iso (toISOString t) = Some t"
proof -
  define d where "d = t div msPerDay"
  define ms where "ms = nat (t mod msPerDay)"
  define y where "y = YearFromDay d"
  define leap where "leap = InLeapYear y"
  define diy where "diy = nat (d - DayFromYear y)"
  define m where "m = MonthFromDay leap diy"
  define date where "date = diy - month_start leap m + 1"
  define rest where "rest = ascii ''-'' @ pad 2 (m + 1) @ ascii ''-'' @ pad 2 date @ ascii ''T'' @
         pad 2 (ms div 3600000) @ ascii '':'' @ pad 2 (ms div 60000 mod 60) @ ascii '':'' @
         pad 2 (ms div 1000 mod 60) @ ascii ''.'' @ pad 3 (ms mod 1000) @ ascii ''Z''"
  have iso: "toISOString t = year_text y @ rest"
    by (simp add: toISOString_def Let_def d_def ms_def y_def leap_def diy_def m_def date_def rest_def)
  have len: "length rest = 20"
    by (simp add: rest_def length_pad ascii_def)
  have db: "- 100000000 \<le> d \<and> d \<le> 100000000"
    unfolding d_def using assms by (rule day_bounds)
  then have yb: "- 999999 \<le> y \<and> y \<le> 999999"
    unfolding y_def by (intro year_bounds) simp_all
  have yd: "DayFromYear y \<le> d" "d < DayFromYear (y + 1)"
    unfolding y_def using YearFromDay_bounds [of d] by simp_all
  then have diy_int: "int diy = d - DayFromYear y" by (simp add: diy_def)
  have "diy < 365 + (if leap then 1 else 0)"
    using yd DayFromYear_next [of y] by (simp add: diy_def leap_def split: if_splits)
  then have mb: "m < 12" "month_start leap m \<le> diy" "diy < month_start leap (Suc m)"
    unfolding m_def using MonthFromDay_bounds [of diy leap] by simp_all
  have date_ok: "1 \<le> date" "date \<le> DaysInMonth leap m"
    using mb by (simp_all add: date_def DaysInMonth_def)
  then have date_small: "date < 100"
    using DaysInMonth_le [OF mb(1), of leap] by simp
  have msb: "ms < 86400000"
    by (simp add: ms_def msPerDay_def nat_less_iff)
  have hh: "ms div 3600000 \<le> 23" using msb by simp
  have fields: "parse_after_year y rest
     = TimeClip ((DayFromYear y + int (month_start leap (m + 1 - 1)) + int date - 1) * msPerDay
         + int (ms div 3600000) * 3600000 + int (ms div 60000 mod 60) * 60000
         + int (ms div 1000 mod 60) * 1000 + int (ms mod 1000))"
    unfolding rest_def leap_def
    using mb(1) date_ok date_small hh
    by (intro parse_after_year_fields) (simp_all add: leap_def)
  have "int (month_start leap m) + int date - 1 = int diy"
    using mb(2) by (simp add: date_def)
  then have day: "DayFromYear y + int (month_start leap (m + 1 - 1)) + int date - 1 = d"
    using diy_int by simp
  have "int (ms div 3600000 * 3600000 + ms div 60000 mod 60 * 60000 + ms div 1000 mod 60 * 1000
           + ms mod 1000) = int ms"
    by (simp only: time_of_day)
  then have tod: "int (ms div 3600000) * 3600000 + int (ms div 60000 mod 60) * 60000
         + int (ms div 1000 mod 60) * 1000 + int (ms mod 1000) = int ms"
    by simp
  have "int ms = t mod msPerDay" by (simp add: ms_def msPerDay_def)
  then have "d * msPerDay + int ms = t" by (simp add: d_def)
  with tod have total: "d * msPerDay + int (ms div 3600000) * 3600000
         + int (ms div 60000 mod 60) * 60000 + int (ms div 1000 mod 60) * 1000 + int (ms mod 1000) = t"
    by linarith
  have "parse_iso (toISOString t) = parse_after_year y rest"
    unfolding iso using yb len by (intro parse_iso_year) simp_all
  also have "\<dots> = TimeClip t"
    unfolding fields day by (simp only: total)
  also have "\<dots> = Some t" using assms by (simp add: TimeClip_def)
  finally show ?thesis .
qed

text \<open>A known value: 1700000000123 ms is 14 November 2023, 22:13:20.123 UTC.\<close>

lemma toISOString_example:
  "toISOString 1700000000123 = ascii ''2023-11-14T22:13:20.123Z''"
proof -
  have "YearFromDay 19675 = 2023"
    by (simp add: YearFromDay_def DayFromYear_def year_search.simps)
  then show ?thesis
    unfolding toISOString_def Let_def
    by (simp add: DayFromYear_def msPerDay_def MonthFromDay_def month_start_def InLeapYear_def
          year_text_def ascii_def digit_def pad_numeral)
qed

section \<open>Properties of persistence\<close>

lemma key_distinct:
  "ascii ''id'' \<noteq> ascii ''title''" "ascii ''id'' \<noteq> ascii ''completed''"
  "ascii ''id'' \<noteq> ascii ''createdAt''" "ascii ''title'' \<noteq> ascii ''completed''"
  "ascii ''title'' \<noteq> ascii ''createdAt''" "ascii ''completed'' \<noteq> ascii ''createdAt''"
  "ascii ''title'' \<noteq> ascii ''id''" "ascii ''completed'' \<noteq> ascii ''id''"
  "ascii ''createdAt'' \<noteq> ascii ''id''" "ascii ''completed'' \<noteq> ascii ''title''"
  "ascii ''createdAt'' \<noteq> ascii ''title''" "ascii ''createdAt'' \<noteq> ascii ''completed''"
  by (simp_all add: ascii_def)

lemma toISOString_nonempty: "toISOString t \<noteq> []"
  by (simp add: toISOString_def Let_def ascii_def)

lemma without_nulls_simps:
  "without_nulls [] = []"
  "without_nulls (None # rs) = without_nulls rs"
  "without_nulls (Some r # rs) = r # without_nulls rs"
  by (simp_all add: without_nulls_def)

lemma without_nulls_append: "without_nulls (rs @ rs') = without_nulls rs @ without_nulls rs'"
  by (simp add: without_nulls_def List.map_filter_def)

lemma without_nulls_Some: "without_nulls (map (Some \<circ> f) xs) = map f xs"
  by (induction xs) (simp_all add: without_nulls_simps)

lemma restoreTodo_todo_json:
  assumes "id todo \<noteq> []" and "title todo \<noteq> []"
    and "createdAt todo = Some t" and "new_Date (JStr (toISOString t)) = Some t"
  shows "restoreTodo new_Date now (todo_json todo) = Inr (Some (typed todo))"
  using assms
  by (simp add: restoreTodo_def created_date_def todo_json_def typed_def key_distinct
        toISOString_nonempty)

lemma restore_from_todo_json:
  assumes "\<forall>todo\<in>set s. id todo \<noteq> [] \<and> title todo \<noteq> [] \<and>
             (\<exists>t. createdAt todo = Some t \<and> new_Date (JStr (toISOString t)) = Some t)"
  shows "restore_from new_Date clock n (map todo_json s) = Inr (map Some (map typed s))"
  using assms
proof (induction s arbitrary: n)
  case Nil
  then show ?case by simp
next
  case (Cons a s)
  then obtain t where "createdAt a = Some t" "new_Date (JStr (toISOString t)) = Some t"
    by auto
  with Cons.prems have "restoreTodo new_Date (clock n) (todo_json a) = Inr (Some (typed a))"
    by (simp add: restoreTodo_todo_json)
  with Cons show ?case by simp
qed

lemma trim_nonempty: "trim s \<noteq> [] \<Longrightarrow> s \<noteq> []"
  by (auto simp: trim_def)

text \<open>
  C1. Saving a well-formed collection (every item with a non-empty id, a title whose trimmed
  form is non-empty and at most 500 code units long, and a valid createdAt date) to a storage
  that accepts the write, and loading at once, returns the collection: every item with the
  same id, title, completed flag and createdAt. The time value of a date is a whole number
  of milliseconds, which the ISO-8601 text carries in full; the platform's \<open>new Date\<close> is
  asked only to read back the text that \<open>toISOString\<close> wrote for the dates of the collection.
\<close>

theorem load_after_save:
  assumes "\<forall>todo\<in>set s. well_formed todo"
    and "\<forall>todo\<in>set s. \<forall>t. createdAt todo = Some t \<longrightarrow> new_Date (JStr (toISOString t)) = Some t"
    and "setItem_outcome ls (stringify s) = Accepted"
  shows "\<exists>w. saveTodos (Storage ls) s = Inr w \<and> loadTodos new_Date clock w = map typed s"
proof -
  have "\<forall>todo\<in>set s. id todo \<noteq> [] \<and> title todo \<noteq> [] \<and>
             (\<exists>t. createdAt todo = Some t \<and> new_Date (JStr (toISOString t)) = Some t)"
    using assms(1,2) by (auto simp: well_formed_def dest: trim_nonempty)
  then have "restore_from new_Date clock 0 (map todo_json s) = Inr (map Some (map typed s))"
    by (rule restore_from_todo_json)
  with assms(3) show ?thesis
    by (simp add: saveTodos_def loadTodos_def stringify_def without_nulls_Some)
qed

text \<open>With the reader of this file in the place of \<open>new Date\<close>, nothing is asked of the
  platform: every date within the range of time values is read back.\<close>

lemma load_after_save_reference:
  assumes "\<forall>todo\<in>set s. well_formed todo"
    and "\<forall>todo\<in>set s. \<forall>t. createdAt todo = Some t \<longrightarrow> \<bar>t\<bar> \<le> 8640000000000000"
    and "setItem_outcome ls (stringify s) = Accepted"
  shows "\<exists>w. saveTodos (Storage ls) s = Inr w \<and> loadTodos Date_of_value clock w = map typed s"
proof -
  have "\<forall>todo\<in>set s. id todo \<noteq> [] \<and> title todo \<noteq> [] \<and>
             (\<exists>t. createdAt todo = Some t \<and> Date_of_value (JStr (toISOString t)) = Some t)"
    using assms(1,2) by (auto simp: well_formed_def reads_back dest: trim_nonempty)
  then have "restore_from Date_of_value clock 0 (map todo_json s) = Inr (map Some (map typed s))"
    by (rule restore_from_todo_json)
  with assms(3) show ?thesis
    by (simp add: saveTodos_def loadTodos_def stringify_def without_nulls_Some)
qed

theorem load_after_save_witness:
  "\<exists>w. saveTodos (Storage (accepting_storage NoItem))
          [\<lparr> id = ascii ''a1'', title = ascii ''Buy milk'', completed = False, createdAt = Some 0 \<rparr>,
           \<lparr> id = ascii ''b2'', title = ascii ''Walk'', completed = True,
              createdAt = Some 1700000000123 \<rparr>] = Inr w \<and>
        loadTodos Date_of_value (steady_clock 1700000000999) w =
          map typed
          [\<lparr> id = ascii ''a1'', title = ascii ''Buy milk'', completed = False, createdAt = Some 0 \<rparr>,
           \<lparr> id = ascii ''b2'', title = ascii ''Walk'', completed = True,
              createdAt = Some 1700000000123 \<rparr>]"
  unfolding accepting_storage_def
proof (rule load_after_save)
  show "\<forall>todo\<in>set
          [\<lparr> id = ascii ''a1'', title = ascii ''Buy milk'', completed = False, createdAt = Some 0 \<rparr>,
           \<lparr> id = ascii ''b2'', title = ascii ''Walk'', completed = True,
              createdAt = Some 1700000000123 \<rparr>].
          well_formed todo"
    by (simp add: well_formed_def trim_def is_whitespace_def ascii_def)
  show "\<forall>todo\<in>set
          [\<lparr> id = ascii ''a1'', title = ascii ''Buy milk'', completed = False, createdAt = Some 0 \<rparr>,
           \<lparr> id = ascii ''b2'', title = ascii ''Walk'', completed = True,
              createdAt = Some 1700000000123 \<rparr>].
          \<forall>t. createdAt todo = Some t \<longrightarrow> Date_of_value (JStr (toISOString t)) = Some t"
    by (simp add: reads_back)
  show "setItem_outcome \<lparr> item = NoItem, setItem_outcome = (\<lambda>v. Accepted), removeItem_throws = False \<rparr>
          (stringify
          [\<lparr> id = ascii ''a1'', title = ascii ''Buy milk'', completed = False, createdAt = Some 0 \<rparr>,
           \<lparr> id = ascii ''b2'', title = ascii ''Walk'', completed = True,
              createdAt = Some 1700000000123 \<rparr>]) = Accepted"
    by simp
qed

text \<open>What the callback does with an element: it returns null exactly for the elements that
  are not kept, throws exactly for those whose date cannot be made, and returns the item
  otherwise.\<close>

lemma restoreTodo_null: "restoreTodo new_Date now e = Inr None \<longleftrightarrow> \<not> kept e"
  by (auto simp: restoreTodo_def kept_def split: json.splits option.splits sum.splits)

lemma restoreTodo_throws: "restoreTodo new_Date now e = Inl x \<longleftrightarrow> callback_throws e"
  by (cases x)
     (auto simp: restoreTodo_def kept_def callback_throws_def created_date_def
           split: json.splits option.splits sum.splits if_splits)

lemma restoreTodo_item:
  assumes "kept e" and "\<not> callback_throws e"
  shows "\<exists>props i t b. e = JObj props \<and>
           map_of props (ascii ''id'') = Some i \<and> truthy i \<and>
           map_of props (ascii ''title'') = Some t \<and> truthy t \<and>
           map_of props (ascii ''completed'') = Some (JBool b) \<and>
           restoreTodo new_Date now e =
             Inr (Some \<lparr> r_id = i, r_title = t, r_completed = b,
                         r_createdAt = (case map_of props (ascii ''createdAt'') of
                                          Some v \<Rightarrow> if truthy v then new_Date v else Some now
                                        | None \<Rightarrow> Some now) \<rparr>)"
  using assms
  by (auto simp: restoreTodo_def kept_def callback_throws_def created_date_def
        split: json.splits option.splits)

lemma restore_from_throws:
  "(\<exists>x. restore_from new_Date clock n elements = Inl x) \<longleftrightarrow> (\<exists>e\<in>set elements. callback_throws e)"
proof (induction elements arbitrary: n)
  case Nil
  show ?case by simp
next
  case (Cons e elements)
  show ?case
  proof (cases "restoreTodo new_Date (clock n) e")
    case (Inl x)
    then have "callback_throws e" using restoreTodo_throws [of new_Date "clock n" e x] by simp
    with Inl show ?thesis by simp
  next
    case (Inr r)
    then have "\<not> callback_throws e"
      using restoreTodo_throws [of new_Date "clock n" e TypeError] by simp
    with Inr Cons [of "Suc n"] show ?thesis by (auto split: sum.splits)
  qed
qed

lemma restore_from_results:
  "restore_from new_Date clock n elements = Inr rs \<Longrightarrow>
     map Inr rs = map (\<lambda>(k, todo). restoreTodo new_Date (clock k) todo) (enumerate n elements)"
proof (induction elements arbitrary: n rs)
  case Nil
  then show ?case by simp
next
  case (Cons e elements)
  then show ?case by (auto split: sum.splits)
qed

lemma filter_nulls:
  "map (\<lambda>r. Inr (Some r)) (without_nulls rs) = filter (\<lambda>r. r \<noteq> Inr None) (map Inr rs)"
proof (induction rs)
  case Nil
  show ?case by (simp add: without_nulls_simps)
next
  case (Cons r rs)
  then show ?case by (cases r) (simp_all add: without_nulls_simps)
qed

text \<open>
  C2, as amended. \<open>loadTodos\<close> always returns a collection: the empty one when there is no
  storage, when reading it throws, when the slot is missing, empty or unparseable, and when
  the stored value is not an array. From an array, the callback returns null exactly for
  the elements that are not objects with the keys id, title and completed, a truthy id, a
  truthy title and a boolean completed. A kept element keeps its id, title and completed
  values as stored; its createdAt is the current time when the stored createdAt is absent or
  falsy, and otherwise whatever \<open>new Date\<close> makes of the stored value, unless that value is
  an object (or an array holding an object) with a \<open>toString\<close> property of its own, for
  which \<open>new Date\<close> throws. If the callback throws for some element, the whole load is the
  empty collection; otherwise the load is, in order, the items the callback returned, each
  dropped element being left out on its own.
\<close>

theorem loadTodos_tolerant:
  "loadTodos new_Date clock NoStorage = [] \<and>
   loadTodos new_Date clock StorageThrows = [] \<and>
   (item ls = NoItem \<or> item ls = EmptyText \<or> item ls = Malformed \<longrightarrow>
      loadTodos new_Date clock (Storage ls) = []) \<and>
   (\<forall>v. item ls = Text v \<longrightarrow> (\<forall>elements. v \<noteq> JArr elements) \<longrightarrow>
      loadTodos new_Date clock (Storage ls) = []) \<and>
   (\<forall>elements. item ls = Text (JArr elements) \<longrightarrow>
      (if \<exists>e\<in>set elements. callback_throws e
       then loadTodos new_Date clock (Storage ls) = []
       else map (\<lambda>r. Inr (Some r)) (loadTodos new_Date clock (Storage ls)) =
              filter (\<lambda>r. r \<noteq> Inr None)
                (map (\<lambda>(k, todo). restoreTodo new_Date (clock k) todo) (enumerate 0 elements)))) \<and>
   (\<forall>now e. (restoreTodo new_Date now e = Inr None \<longleftrightarrow> \<not> kept e) \<and>
            (restoreTodo new_Date now e = Inl TypeError \<longleftrightarrow> callback_throws e)) \<and>
   (\<forall>now e. kept e \<longrightarrow> \<not> callback_throws e \<longrightarrow>
      (\<exists>props i t b. e = JObj props \<and>
         map_of props (ascii ''id'') = Some i \<and> truthy i \<and>
         map_of props (ascii ''title'') = Some t \<and> truthy t \<and>
         map_of props (ascii ''completed'') = Some (JBool b) \<and>
         restoreTodo new_Date now e =
           Inr (Some \<lparr> r_id = i, r_title = t, r_completed = b,
                       r_createdAt = (case map_of props (ascii ''createdAt'') of
                                        Some v \<Rightarrow> if truthy v then new_Date v else Some now
                                      | None \<Rightarrow> Some now) \<rparr>)))"
proof -
  have a: "\<forall>v. item ls = Text v \<longrightarrow> (\<forall>elements. v \<noteq> JArr elements) \<longrightarrow>
      loadTodos new_Date clock (Storage ls) = []"
    by (auto simp: loadTodos_def split: json.splits)
  have b: "\<forall>elements. item ls = Text (JArr elements) \<longrightarrow>
      (if \<exists>e\<in>set elements. callback_throws e
       then loadTodos new_Date clock (Storage ls) = []
       else map (\<lambda>r. Inr (Some r)) (loadTodos new_Date clock (Storage ls)) =
              filter (\<lambda>r. r \<noteq> Inr None)
                (map (\<lambda>(k, todo). restoreTodo new_Date (clock k) todo) (enumerate 0 elements)))"
  proof (intro allI impI)
    fix elements
    assume stored: "item ls = Text (JArr elements)"
    show "if \<exists>e\<in>set elements. callback_throws e
       then loadTodos new_Date clock (Storage ls) = []
       else map (\<lambda>r. Inr (Some r)) (loadTodos new_Date clock (Storage ls)) =
              filter (\<lambda>r. r \<noteq> Inr None)
                (map (\<lambda>(k, todo). restoreTodo new_Date (clock k) todo) (enumerate 0 elements))"
    proof (cases "restore_from new_Date clock 0 elements")
      case (Inl x)
      then have "\<exists>e\<in>set elements. callback_throws e"
        using restore_from_throws [of new_Date clock 0 elements] by blast
      with Inl stored show ?thesis by (simp add: loadTodos_def)
    next
      case (Inr rs)
      then have quiet: "\<not> (\<exists>e\<in>set elements. callback_throws e)"
        using restore_from_throws [of new_Date clock 0 elements] by auto
      have load: "loadTodos new_Date clock (Storage ls) = without_nulls rs"
        using Inr stored by (simp add: loadTodos_def)
      have "map (\<lambda>r. Inr (Some r)) (loadTodos new_Date clock (Storage ls)) =
              filter (\<lambda>r. r \<noteq> Inr None) (map Inr rs)"
        unfolding load by (rule filter_nulls)
      also have "map Inr rs =
              map (\<lambda>(k, todo). restoreTodo new_Date (clock k) todo) (enumerate 0 elements)"
        using Inr by (rule restore_from_results)
      finally have "map (\<lambda>r. Inr (Some r)) (loadTodos new_Date clock (Storage ls)) =
              filter (\<lambda>r. r \<noteq> Inr None)
                (map (\<lambda>(k, todo). restoreTodo new_Date (clock k) todo) (enumerate 0 elements))" .
      with quiet show ?thesis by (simp only: if_False)
    qed
  qed
  have c: "\<forall>now e. (restoreTodo new_Date now e = Inr None \<longleftrightarrow> \<not> kept e) \<and>
            (restoreTodo new_Date now e = Inl TypeError \<longleftrightarrow> callback_throws e)"
    by (simp add: restoreTodo_null restoreTodo_throws)
  have d: "\<forall>now e. kept e \<longrightarrow> \<not> callback_throws e \<longrightarrow>
      (\<exists>props i t b. e = JObj props \<and>
         map_of props (ascii ''id'') = Some i \<and> truthy i \<and>
         map_of props (ascii ''title'') = Some t \<and> truthy t \<and>
         map_of props (ascii ''completed'') = Some (JBool b) \<and>
         restoreTodo new_Date now e =
           Inr (Some \<lparr> r_id = i, r_title = t, r_completed = b,
                       r_createdAt = (case map_of props (ascii ''createdAt'') of
                                        Some v \<Rightarrow> if truthy v then new_Date v else Some now
                                      | None \<Rightarrow> Some now) \<rparr>))"
    using restoreTodo_item by blast
  have e: "loadTodos new_Date clock NoStorage = []" "loadTodos new_Date clock StorageThrows = []"
    "item ls = NoItem \<or> item ls = EmptyText \<or> item ls = Malformed \<longrightarrow>
      loadTodos new_Date clock (Storage ls) = []"
    by (auto simp: loadTodos_def)
  from a b c d e show ?thesis by blast
qed

theorem loadTodos_tolerant_witness:
  "loadTodos Date_of_value (steady_clock 1700000000999)
     (Storage (accepting_storage (Text (JArr
        [JNum 1,
         JObj [(ascii ''id'', JStr (ascii ''7'')), (ascii ''title'', JStr (ascii ''x''))],
         JObj [(ascii ''id'', JStr (ascii ''a'')), (ascii ''title'', JStr (ascii ''y'')),
               (ascii ''completed'', JBool False)],
         JObj [(ascii ''id'', JStr (ascii ''b'')), (ascii ''title'', JStr (ascii ''z'')),
               (ascii ''completed'', JBool True), (ascii ''createdAt'', JNum 86400000)]]))))
   = [\<lparr> r_id = JStr (ascii ''a''), r_title = JStr (ascii ''y''), r_completed = False,
         r_createdAt = Some 1700000000999 \<rparr>,
      \<lparr> r_id = JStr (ascii ''b''), r_title = JStr (ascii ''z''), r_completed = True,
         r_createdAt = Some 86400000 \<rparr>] \<and>
   loadTodos Date_of_value (steady_clock 1700000000999)
     (Storage (accepting_storage (Text (JArr
        [JObj [(ascii ''id'', JStr (ascii ''a'')), (ascii ''title'', JStr (ascii ''y'')),
               (ascii ''completed'', JBool False),
               (ascii ''createdAt'', JObj [(ascii ''toString'', JNull)])],
         JObj [(ascii ''id'', JStr (ascii ''b'')), (ascii ''title'', JStr (ascii ''z'')),
               (ascii ''completed'', JBool True)]])))) = []"
proof
  show "loadTodos Date_of_value (steady_clock 1700000000999)
     (Storage (accepting_storage (Text (JArr
        [JNum 1,
         JObj [(ascii ''id'', JStr (ascii ''7'')), (ascii ''title'', JStr (ascii ''x''))],
         JObj [(ascii ''id'', JStr (ascii ''a'')), (ascii ''title'', JStr (ascii ''y'')),
               (ascii ''completed'', JBool False)],
         JObj [(ascii ''id'', JStr (ascii ''b'')), (ascii ''title'', JStr (ascii ''z'')),
               (ascii ''completed'', JBool True), (ascii ''createdAt'', JNum 86400000)]]))))
   = [\<lparr> r_id = JStr (ascii ''a''), r_title = JStr (ascii ''y''), r_completed = False,
         r_createdAt = Some 1700000000999 \<rparr>,
      \<lparr> r_id = JStr (ascii ''b''), r_title = JStr (ascii ''z''), r_completed = True,
         r_createdAt = Some 86400000 \<rparr>]"
    using loadTodos_tolerant [of Date_of_value "steady_clock 1700000000999"
     "accepting_storage (Text (JArr
        [JNum 1,
         JObj [(ascii ''id'', JStr (ascii ''7'')), (ascii ''title'', JStr (ascii ''x''))],
         JObj [(ascii ''id'', JStr (ascii ''a'')), (ascii ''title'', JStr (ascii ''y'')),
               (ascii ''completed'', JBool False)],
         JObj [(ascii ''id'', JStr (ascii ''b'')), (ascii ''title'', JStr (ascii ''z'')),
               (ascii ''completed'', JBool True), (ascii ''createdAt'', JNum 86400000)]]))"]
    by (simp add: accepting_storage_def steady_clock_def kept_def callback_throws_def
          restoreTodo_def created_date_def ascii_def TimeClip_def map_eq_Cons_conv)
  show "loadTodos Date_of_value (steady_clock 1700000000999)
     (Storage (accepting_storage (Text (JArr
        [JObj [(ascii ''id'', JStr (ascii ''a'')), (ascii ''title'', JStr (ascii ''y'')),
               (ascii ''completed'', JBool False),
               (ascii ''createdAt'', JObj [(ascii ''toString'', JNull)])],
         JObj [(ascii ''id'', JStr (ascii ''b'')), (ascii ''title'', JStr (ascii ''z'')),
               (ascii ''completed'', JBool True)]])))) = []"
    using loadTodos_tolerant [of Date_of_value "steady_clock 1700000000999"
     "accepting_storage (Text (JArr
        [JObj [(ascii ''id'', JStr (ascii ''a'')), (ascii ''title'', JStr (ascii ''y'')),
               (ascii ''completed'', JBool False),
               (ascii ''createdAt'', JObj [(ascii ''toString'', JNull)])],
         JObj [(ascii ''id'', JStr (ascii ''b'')), (ascii ''title'', JStr (ascii ''z'')),
               (ascii ''completed'', JBool True)]]))"]
    by (simp add: accepting_storage_def kept_def callback_throws_def ascii_def)
qed

text \<open>
  C2, as stated, fails: an element whose id is a number and whose title is a boolean (wrong
  primitive types, but truthy) is kept as it is; a kept element whose createdAt is a text
  that is no date gets an Invalid Date, not the current time; and one element whose
  createdAt is the object \<open>{"toString": null}\<close> makes \<open>new Date\<close> throw, so that the
  well-formed element next to it is lost with it.
\<close>

theorem loadTodos_counterexample:
  "loadTodos Date_of_value (steady_clock 1700000000999)
     (Storage (accepting_storage (Text (JArr
        [JObj [(ascii ''id'', JNum 5), (ascii ''title'', JBool True),
               (ascii ''completed'', JBool True)],
         JObj [(ascii ''id'', JStr (ascii ''b'')), (ascii ''title'', JStr (ascii ''z'')),
               (ascii ''completed'', JBool False), (ascii ''createdAt'', JStr (ascii ''soon''))]]))))
   = [\<lparr> r_id = JNum 5, r_title = JBool True, r_completed = True,
         r_createdAt = Some 1700000000999 \<rparr>,
      \<lparr> r_id = JStr (ascii ''b''), r_title = JStr (ascii ''z''), r_completed = False,
         r_createdAt = None \<rparr>] \<and>
   loadTodos Date_of_value (steady_clock 1700000000999)
     (Storage (accepting_storage (Text (JArr
        [JObj [(ascii ''id'', JStr (ascii ''a'')), (ascii ''title'', JStr (ascii ''y'')),
               (ascii ''completed'', JBool False),
               (ascii ''createdAt'', JObj [(ascii ''toString'', JNull)])],
         JObj [(ascii ''id'', JStr (ascii ''b'')), (ascii ''title'', JStr (ascii ''z'')),
               (ascii ''completed'', JBool True)]])))) = []"
  by (simp add: loadTodos_def accepting_storage_def steady_clock_def restoreTodo_def
        created_date_def without_nulls_simps ascii_def parse_iso_def digits_at_def digit_value_def)

lemma restore_from_append:
  "restore_from new_Date clock n (xs @ ys) =
     (case restore_from new_Date clock n xs of
        Inl x \<Rightarrow> Inl x
      | Inr rs \<Rightarrow>
          (case restore_from new_Date clock (n + length xs) ys of
             Inl x \<Rightarrow> Inl x
           | Inr rs' \<Rightarrow> Inr (rs @ rs')))"
  by (induction xs arbitrary: n) (auto split: sum.splits)

text \<open>
  C10. A stored element whose id and title are strings and whose completed is a boolean is
  dropped by \<open>loadTodos\<close> whenever the id or the title is the empty string: the callback
  returns null for it before any date is made, and the load of an array containing it is
  the items of the elements before it followed by the items of the elements after it (or
  the empty collection when the callback throws on one of those).
\<close>

theorem empty_string_field_dropped:
  assumes "map_of props (ascii ''id'') = Some (JStr i)"
    and "map_of props (ascii ''title'') = Some (JStr t)"
    and "map_of props (ascii ''completed'') = Some (JBool b)"
    and "i = [] \<or> t = []"
  shows "restoreTodo new_Date now (JObj props) = Inr None \<and>
         (item ls = Text (JArr (before @ JObj props # after)) \<longrightarrow>
            loadTodos new_Date clock (Storage ls) =
              (case restore_from new_Date clock 0 before of
                 Inl x \<Rightarrow> []
               | Inr rs \<Rightarrow>
                   (case restore_from new_Date clock (Suc (length before)) after of
                      Inl x \<Rightarrow> []
                    | Inr rs' \<Rightarrow> without_nulls rs @ without_nulls rs')))"
proof -
  have none: "restoreTodo new_Date now (JObj props) = Inr None" for now
    using assms by (auto simp: restoreTodo_def)
  then show ?thesis
    by (auto simp: loadTodos_def restore_from_append without_nulls_append without_nulls_simps
          split: sum.splits)
qed

theorem empty_string_field_dropped_witness:
  "restoreTodo Date_of_value 1700000000999
     (JObj [(ascii ''id'', JStr (ascii ''7'')), (ascii ''title'', JStr []),
            (ascii ''completed'', JBool False)]) = Inr None \<and>
   loadTodos Date_of_value (steady_clock 1700000000999)
     (Storage (accepting_storage (Text (JArr
        [JObj [(ascii ''id'', JStr (ascii ''7'')), (ascii ''title'', JStr []),
               (ascii ''completed'', JBool False)],
         JObj [(ascii ''id'', JStr (ascii ''a'')), (ascii ''title'', JStr (ascii ''y'')),
               (ascii ''completed'', JBool False)]]))))
   = [\<lparr> r_id = JStr (ascii ''a''), r_title = JStr (ascii ''y''), r_completed = False,
         r_createdAt = Some 1700000000999 \<rparr>]"
  using empty_string_field_dropped [of
     "[(ascii ''id'', JStr (ascii ''7'')), (ascii ''title'', JStr []), (ascii ''completed'', JBool False)]"
     "ascii ''7''" "[]" False Date_of_value 1700000000999
     "accepting_storage (Text (JArr
        [JObj [(ascii ''id'', JStr (ascii ''7'')), (ascii ''title'', JStr []),
               (ascii ''completed'', JBool False)],
         JObj [(ascii ''id'', JStr (ascii ''a'')), (ascii ''title'', JStr (ascii ''y'')),
               (ascii ''completed'', JBool False)]]))"
     "[]"
     "[JObj [(ascii ''id'', JStr (ascii ''a'')), (ascii ''title'', JStr (ascii ''y'')),
               (ascii ''completed'', JBool False)]]"
     "steady_clock 1700000000999"]
  by (simp add: accepting_storage_def steady_clock_def restoreTodo_def created_date_def
        without_nulls_simps ascii_def)

section \<open>Properties of the hooks\<close>

lemma dropWhile_fix: "xs = [] \<or> \<not> P (hd xs) \<Longrightarrow> dropWhile P xs = xs"
  by (cases xs) auto

lemma trim_idem: "trim (trim s) = trim s"
proof (cases "trim s = []")
  case True
  moreover have "trim [] = []" by (simp add: trim_def)
  ultimately show ?thesis by simp
next
  case False
  define a where "a = dropWhile is_whitespace s"
  define b where "b = dropWhile is_whitespace (rev a)"
  have u: "trim s = rev b" by (simp add: trim_def a_def b_def)
  with False have b_ne: "b \<noteq> []" by simp
  then have hb: "\<not> is_whitespace (hd b)"
    unfolding b_def by (rule hd_dropWhile)
  have "rev a = takeWhile is_whitespace (rev a) @ b"
    by (simp add: b_def)
  then have "a = rev b @ rev (takeWhile is_whitespace (rev a))"
    by (metis rev_append rev_rev_ident)
  with b_ne have hd_eq: "hd (rev b) = hd a" and a_ne: "a \<noteq> []"
    by (metis hd_append2 rev_is_Nil_conv, auto)
  from a_ne have "\<not> is_whitespace (hd a)"
    unfolding a_def by (rule hd_dropWhile)
  with hd_eq have "dropWhile is_whitespace (rev b) = rev b"
    by (simp add: dropWhile_fix)
  moreover from hb have "dropWhile is_whitespace b = b"
    by (simp add: dropWhile_fix)
  ultimately have "trim (rev b) = rev b" by (simp add: trim_def)
  then show ?thesis by (simp only: u)
qed

lemma valid_title: "isValid (validateTodoTitle t) \<longleftrightarrow> trim t \<noteq> [] \<and> length (trim t) \<le> 500"
  by (auto simp: validateTodoTitle_def trim_def)

lemma todos_setValue: "todos (setValue v h) = v"
  by (simp add: setValue_def Let_def split: window.splits write_outcome.splits)

lemma todos_commit: "todos (commit v h) = v"
  by (simp add: commit_def Let_def todos_setValue split: sum.splits)

lemma todos_dispatch:
  "todos (dispatch a h) = (if accepted a then applied a (todos h) else todos h)"
proof (cases a)
  case (UpdateTodo i updates)
  then show ?thesis
    by (cases "u_title updates") (simp_all add: useTodos_updateTodo_def todos_commit)
next
  case ClearAllTodos
  then show ?thesis
    by (simp add: clearAllTodos_def Let_def todos_setValue split: sum.splits)
qed (simp_all add: useTodos_addTodo_def Let_def useTodos_deleteTodo_def
       useTodos_toggleComplete_def clearCompletedTodos_def todos_commit)

lemma title_ok_created:
  assumes "isValid (validateTodoTitle (i_title input))"
  shows "title_ok (createTodo uuid now input)"
  using assms by (simp add: valid_title title_ok_def createTodo_def trim_idem)

lemma title_ok_updated:
  assumes "case u_title updates of Some t \<Rightarrow> isValid (validateTodoTitle t) | None \<Rightarrow> True"
    and "title_ok todo"
  shows "title_ok (update_one updates todo)"
  using assms
  by (auto simp: valid_title title_ok_def update_one_def trim_idem split: option.splits)

lemma title_ok_applied:
  assumes "accepted a" and "\<forall>todo\<in>set s. title_ok todo"
  shows "\<forall>todo\<in>set (applied a s). title_ok todo"
proof (cases a)
  case (AddTodo uuid now input)
  with assms show ?thesis by (auto simp: title_ok_created)
next
  case (UpdateTodo i updates)
  with assms show ?thesis by (auto simp: updateTodo_def title_ok_updated)
next
  case (DeleteTodo i)
  with assms show ?thesis by (auto simp: deleteTodo_def)
next
  case (ToggleComplete i)
  with assms show ?thesis by (auto simp: toggleComplete_def title_ok_def)
next
  case ClearAllTodos
  then show ?thesis by simp
next
  case ClearCompletedTodos
  with assms show ?thesis by auto
qed

lemma title_ok_dispatch:
  assumes "\<forall>todo\<in>set (todos h). title_ok todo"
  shows "\<forall>todo\<in>set (todos (dispatch a h)). title_ok todo"
  using assms title_ok_applied [of a "todos h"] by (simp add: todos_dispatch)

text \<open>
  C4. Starting from a collection whose titles are all non-empty and not whitespace-only (the
  empty collection of a first start is one), every state reached through any sequence of
  the mutations of \<open>useTodos\<close> (add, update, toggle, delete, clear all, clear completed)
  holds only items whose title is non-empty and not whitespace-only: an addition or an
  update carrying a title goes through \<open>validateTodoTitle\<close> first and stores the trimmed
  title, and a rejected intent leaves the collection as it was.
\<close>

theorem title_invariant:
  assumes "\<forall>todo\<in>set (todos h). title_ok todo"
  shows "\<forall>todo\<in>set (todos (run intents h)). title_ok todo"
  using assms
proof (induction intents arbitrary: h)
  case Nil
  then show ?case by simp
next
  case (Cons a intents)
  from Cons.prems have "\<forall>todo\<in>set (todos (dispatch a h)). title_ok todo"
    by (rule title_ok_dispatch)
  then show ?case using Cons.IH by simp
qed

theorem title_invariant_witness:
  "todos (run
      [AddTodo (ascii ''a1'') 1700000000000 \<lparr> i_title = ascii '' Buy milk  '' \<rparr>,
       AddTodo (ascii ''b2'') 1700000000001 \<lparr> i_title = ascii ''   '' \<rparr>,
       UpdateTodo (ascii ''a1'') \<lparr> u_title = Some (ascii '' ''), u_completed = None \<rparr>,
       UpdateTodo (ascii ''a1'') \<lparr> u_title = Some (ascii ''Buy tea ''), u_completed = None \<rparr>,
       ToggleComplete (ascii ''a1'')]
      (initial NoStorage))
     = [\<lparr> id = ascii ''a1'', title = ascii ''Buy tea'', completed = True,
           createdAt = Some 1700000000000 \<rparr>] \<and>
   title_ok \<lparr> id = ascii ''a1'', title = ascii ''Buy tea'', completed = True,
              createdAt = Some 1700000000000 \<rparr>"
proof -
  have run: "todos (run
      [AddTodo (ascii ''a1'') 1700000000000 \<lparr> i_title = ascii '' Buy milk  '' \<rparr>,
       AddTodo (ascii ''b2'') 1700000000001 \<lparr> i_title = ascii ''   '' \<rparr>,
       UpdateTodo (ascii ''a1'') \<lparr> u_title = Some (ascii '' ''), u_completed = None \<rparr>,
       UpdateTodo (ascii ''a1'') \<lparr> u_title = Some (ascii ''Buy tea ''), u_completed = None \<rparr>,
       ToggleComplete (ascii ''a1'')]
      (initial NoStorage))
     = [\<lparr> id = ascii ''a1'', title = ascii ''Buy tea'', completed = True,
           createdAt = Some 1700000000000 \<rparr>]"
    by (simp add: initial_def useTodos_addTodo_def useTodos_updateTodo_def
          useTodos_toggleComplete_def commit_def setValue_def saveTodos_def Let_def
          validateTodoTitle_def createTodo_def updateTodo_def update_one_def
          toggleComplete_def trim_def is_whitespace_def ascii_def)
  have "\<forall>todo\<in>set (todos (run
      [AddTodo (ascii ''a1'') 1700000000000 \<lparr> i_title = ascii '' Buy milk  '' \<rparr>,
       AddTodo (ascii ''b2'') 1700000000001 \<lparr> i_title = ascii ''   '' \<rparr>,
       UpdateTodo (ascii ''a1'') \<lparr> u_title = Some (ascii '' ''), u_completed = None \<rparr>,
       UpdateTodo (ascii ''a1'') \<lparr> u_title = Some (ascii ''Buy tea ''), u_completed = None \<rparr>,
       ToggleComplete (ascii ''a1'')]
      (initial NoStorage))). title_ok todo"
    by (rule title_invariant) (simp add: initial_def)
  with run show ?thesis by simp
qed

lemma dispatch_NoStorage:
  assumes "accepted a" and "env h = NoStorage"
  shows "storageError (dispatch a h) = Some NotPersisted \<and> error (dispatch a h) = None \<and>
         env (dispatch a h) = NoStorage"
proof -
  have c: "storageError (commit v h) = Some NotPersisted \<and> error (commit v h) = None \<and>
           env (commit v h) = NoStorage" for v
    using assms(2) by (simp add: commit_def setValue_def saveTodos_def Let_def)
  show ?thesis
  proof (cases a)
    case (AddTodo uuid now input)
    with assms(1) c show ?thesis by (simp add: useTodos_addTodo_def Let_def)
  next
    case (UpdateTodo i updates)
    with assms(1) c show ?thesis
      by (cases "u_title updates") (simp_all add: useTodos_updateTodo_def)
  next
    case (DeleteTodo i)
    with c show ?thesis by (simp add: useTodos_deleteTodo_def)
  next
    case (ToggleComplete i)
    with c show ?thesis by (simp add: useTodos_toggleComplete_def)
  next
    case ClearAllTodos
    with assms(2) show ?thesis
      by (simp add: clearAllTodos_def setValue_def clearTodos_def Let_def)
  next
    case ClearCompletedTodos
    with c show ?thesis by (simp add: clearCompletedTodos_def)
  qed
qed

lemma commit_quota:
  assumes "env h = Storage ls" and "setItem_outcome ls (stringify v) = QuotaExceededError"
  shows "storageError (commit v h) = Some StorageFull \<and> error (commit v h) = Some StorageFull \<and>
         env (commit v h) = env h"
  using assms by (simp add: commit_def setValue_def saveTodos_def Let_def)

lemma dispatch_quota:
  assumes "accepted a" and "a \<noteq> ClearAllTodos" and "env h = Storage ls"
    and "setItem_outcome ls (stringify (applied a (todos h))) = QuotaExceededError"
  shows "storageError (dispatch a h) = Some StorageFull \<and> error (dispatch a h) = Some StorageFull \<and>
         env (dispatch a h) = env h"
proof (cases a)
  case (AddTodo uuid now input)
  with assms commit_quota [of h ls "applied a (todos h)"] show ?thesis
    by (simp add: useTodos_addTodo_def Let_def)
next
  case (UpdateTodo i updates)
  with assms commit_quota [of h ls "applied a (todos h)"] show ?thesis
    by (cases "u_title updates") (simp_all add: useTodos_updateTodo_def)
next
  case (DeleteTodo i)
  with assms commit_quota [of h ls "applied a (todos h)"] show ?thesis
    by (simp add: useTodos_deleteTodo_def)
next
  case (ToggleComplete i)
  with assms commit_quota [of h ls "applied a (todos h)"] show ?thesis
    by (simp add: useTodos_toggleComplete_def)
next
  case ClearAllTodos
  with assms show ?thesis by simp
next
  case ClearCompletedTodos
  with assms commit_quota [of h ls "applied a (todos h)"] show ?thesis
    by (simp add: clearCompletedTodos_def)
qed

text \<open>
  C3, as amended. With no storage reachable, \<open>saveTodos\<close> returns normally and writes
  nothing; the condition is surfaced by \<open>setValue\<close> of \<open>useLocalStorage\<close>, which keeps the new
  collection in memory and records the message that the data is not persisted. When the
  storage rejects the write with \<open>QuotaExceededError\<close>, \<open>saveTodos\<close> throws the
  storage-capacity message, which differs from the message of the generic save failure that
  any other failure of the write throws, and both hooks record it. In every case the
  collection in memory is the one the accepted mutation produced.
\<close>

theorem save_failures:
  "saveTodos NoStorage s = Inr NoStorage \<and>
   saveTodos StorageThrows s = Inl SaveFailed \<and>
   (setItem_outcome ls (stringify s) = QuotaExceededError \<longrightarrow>
      saveTodos (Storage ls) s = Inl StorageFull) \<and>
   (setItem_outcome ls (stringify s) = OtherError \<longrightarrow>
      saveTodos (Storage ls) s = Inl SaveFailed) \<and>
   StorageFull \<noteq> SaveFailed \<and>
   (accepted a \<longrightarrow> todos (dispatch a h) = applied a (todos h)) \<and>
   (accepted a \<longrightarrow> env h = NoStorage \<longrightarrow>
      storageError (dispatch a h) = Some NotPersisted \<and> error (dispatch a h) = None \<and>
      env (dispatch a h) = NoStorage) \<and>
   (accepted a \<longrightarrow> a \<noteq> ClearAllTodos \<longrightarrow> env h = Storage ls' \<longrightarrow>
      setItem_outcome ls' (stringify (applied a (todos h))) = QuotaExceededError \<longrightarrow>
      storageError (dispatch a h) = Some StorageFull \<and> error (dispatch a h) = Some StorageFull \<and>
      env (dispatch a h) = env h)"
proof -
  have "saveTodos NoStorage s = Inr NoStorage" "saveTodos StorageThrows s = Inl SaveFailed"
    "setItem_outcome ls (stringify s) = QuotaExceededError \<longrightarrow>
      saveTodos (Storage ls) s = Inl StorageFull"
    "setItem_outcome ls (stringify s) = OtherError \<longrightarrow>
      saveTodos (Storage ls) s = Inl SaveFailed"
    by (simp_all add: saveTodos_def)
  moreover have "accepted a \<longrightarrow> todos (dispatch a h) = applied a (todos h)"
    by (simp add: todos_dispatch)
  ultimately show ?thesis
    using dispatch_NoStorage [of a h] dispatch_quota [of a h ls'] by simp
qed

theorem save_failures_witness:
  "todos (dispatch (AddTodo (ascii ''a1'') 1700000000000 \<lparr> i_title = ascii ''Buy milk'' \<rparr>)
            (initial (Storage (full_storage NoItem))))
     = [\<lparr> id = ascii ''a1'', title = ascii ''Buy milk'', completed = False,
           createdAt = Some 1700000000000 \<rparr>] \<and>
   error (dispatch (AddTodo (ascii ''a1'') 1700000000000 \<lparr> i_title = ascii ''Buy milk'' \<rparr>)
            (initial (Storage (full_storage NoItem)))) = Some StorageFull \<and>
   env (dispatch (AddTodo (ascii ''a1'') 1700000000000 \<lparr> i_title = ascii ''Buy milk'' \<rparr>)
            (initial (Storage (full_storage NoItem)))) = Storage (full_storage NoItem)"
  using save_failures [of "[]" "full_storage NoItem"
      "AddTodo (ascii ''a1'') 1700000000000 \<lparr> i_title = ascii ''Buy milk'' \<rparr>"
      "initial (Storage (full_storage NoItem))" "full_storage NoItem"]
  by (simp add: initial_def full_storage_def valid_title createTodo_def trim_def
        is_whitespace_def ascii_def)

text \<open>
  C3, as stated, fails: with no storage reachable \<open>saveTodos\<close> does not fail, it returns
  normally.
\<close>

theorem saveTodos_unavailable_counterexample:
  "saveTodos NoStorage
     [\<lparr> id = ascii ''a1'', title = ascii ''Buy milk'', completed = False,
         createdAt = Some 1700000000000 \<rparr>] = Inr NoStorage"
  by (simp add: saveTodos_def)

section \<open>Properties of the presentation order\<close>

lemma compare_key:
  assumes "createdAt a \<noteq> None" and "createdAt b \<noteq> None"
  shows "compareTodos a b \<le> 0 \<longleftrightarrow> sort_key_of a \<le> sort_key_of b"
  using assms by (auto simp: compareTodos_def sort_key_of_def)

lemma compare_zero_key:
  assumes "createdAt a \<noteq> None" and "createdAt b \<noteq> None"
  shows "compareTodos a b = 0 \<longleftrightarrow> sort_key_of a = sort_key_of b"
  using assms by (auto simp: compareTodos_def sort_key_of_def)

lemma insert_sorted_insort_key:
  assumes "createdAt x \<noteq> None" and "\<forall>y\<in>set ys. createdAt y \<noteq> None"
  shows "insert_sorted compareTodos x ys = insort_key sort_key_of x ys"
  using assms by (induction ys) (simp_all add: compare_key)

lemma array_sort_sort_key:
  assumes "\<forall>x\<in>set xs. createdAt x \<noteq> None"
  shows "array_sort compareTodos xs = sort_key sort_key_of xs"
  using assms
proof (induction xs)
  case Nil
  show ?case by (simp add: array_sort_def)
next
  case (Cons x xs)
  then have "array_sort compareTodos xs = sort_key sort_key_of xs" by simp
  moreover have "\<forall>y\<in>set (sort_key sort_key_of xs). createdAt y \<noteq> None"
    using Cons.prems by simp
  ultimately show ?case
    using Cons.prems by (simp add: array_sort_def sort_key_def insert_sorted_insort_key)
qed

text \<open>With valid dates, any stable ordered arrangement of the items is the result of
  \<open>array_sort\<close>.\<close>

lemma array_sort_unique:
  assumes "\<forall>x\<in>set xs. createdAt x \<noteq> None"
    and "mset ys = mset xs"
    and "sorted (map sort_key_of ys)"
    and "\<And>k. k \<in> set ys \<Longrightarrow>
           filter (\<lambda>x. sort_key_of k = sort_key_of x) ys = filter (\<lambda>x. sort_key_of k = sort_key_of x) xs"
  shows "array_sort compareTodos xs = ys"
  using assms by (simp add: array_sort_sort_key properties_for_sort_key)

lemma sorted_key_order:
  assumes "sorted (map sort_key_of r)" and "i < j" and "j < length r"
  shows "(completed (r ! i) \<longrightarrow> completed (r ! j)) \<and>
         (completed (r ! i) = completed (r ! j) \<longrightarrow>
            the (createdAt (r ! j)) \<le> the (createdAt (r ! i)))"
proof -
  from assms have "map sort_key_of r ! i \<le> map sort_key_of r ! j"
    by (simp add: sorted_iff_nth_mono)
  with assms(2,3) have "sort_key_of (r ! i) \<le> sort_key_of (r ! j)" by simp
  then show ?thesis by (auto simp: sort_key_of_def)
qed

lemma array_sort_properties:
  assumes "\<forall>x\<in>set xs. createdAt x \<noteq> None"
  shows "mset (array_sort compareTodos xs) = mset xs"
    and "sorted (map sort_key_of (array_sort compareTodos xs))"
    and "\<forall>x\<in>set xs. filter (\<lambda>y. compareTodos x y = 0) (array_sort compareTodos xs)
            = filter (\<lambda>y. compareTodos x y = 0) xs"
proof -
  have eq: "array_sort compareTodos xs = sort_key sort_key_of xs"
    using assms by (rule array_sort_sort_key)
  show "mset (array_sort compareTodos xs) = mset xs" by (simp add: eq)
  show "sorted (map sort_key_of (array_sort compareTodos xs))" by (simp add: eq)
  show "\<forall>x\<in>set xs. filter (\<lambda>y. compareTodos x y = 0) (array_sort compareTodos xs)
            = filter (\<lambda>y. compareTodos x y = 0) xs"
  proof
    fix x assume x: "x \<in> set xs"
    have "filter (\<lambda>y. compareTodos x y = 0) (sort_key sort_key_of xs)
            = filter (\<lambda>y. sort_key_of y = sort_key_of x) (sort_key sort_key_of xs)"
      using assms x by (intro filter_cong) (auto simp: compare_zero_key)
    also have "\<dots> = filter (\<lambda>y. sort_key_of y = sort_key_of x) xs"
      by (rule sort_key_stable)
    also have "\<dots> = filter (\<lambda>y. compareTodos x y = 0) xs"
      using assms x by (intro filter_cong) (auto simp: compare_zero_key)
    finally show "filter (\<lambda>y. compareTodos x y = 0) (array_sort compareTodos xs)
            = filter (\<lambda>y. compareTodos x y = 0) xs"
      by (simp add: eq)
  qed
qed

lemma sortedTodos_result:
  assumes "a < length st"
  shows "sortedTodos st a = (st @ [array_sort compareTodos (st ! a)], length st)"
  using assms by (simp add: sortedTodos_def spread_def sort_in_place_def nth_append)

text \<open>
  C8. For a collection whose items all have a valid createdAt, \<open>sortedTodos\<close> yields an
  arrangement of the same items (none lost, none added) in which no completed item precedes
  an active one and items of equal completion status come with the higher createdAt first;
  the sort is stable (the items that compare equal to a given item keep their stored order);
  the array of the collection and every other array of the store are left as they were (the
  sort works on a fresh copy); and sorting the unchanged collection again gives the same
  arrangement.
\<close>

theorem presentation_order:
  assumes "a < length st" and "\<forall>todo\<in>set (st ! a). createdAt todo \<noteq> None"
  shows "\<exists>st' copy r. sortedTodos st a = (st', copy) \<and> copy < length st' \<and> r = st' ! copy \<and>
           mset r = mset (st ! a) \<and>
           (\<forall>i j. i < j \<longrightarrow> j < length r \<longrightarrow>
              (completed (r ! i) \<longrightarrow> completed (r ! j)) \<and>
              (completed (r ! i) = completed (r ! j) \<longrightarrow>
                 the (createdAt (r ! j)) \<le> the (createdAt (r ! i)))) \<and>
           (\<forall>x\<in>set (st ! a).
              filter (\<lambda>y. compareTodos x y = 0) r = filter (\<lambda>y. compareTodos x y = 0) (st ! a)) \<and>
           take (length st) st' = st \<and> st' ! a = st ! a \<and>
           (\<exists>st'' copy'. sortedTodos st' a = (st'', copy') \<and> st'' ! copy' = r \<and> st'' ! a = st ! a)"
proof -
  let ?r = "array_sort compareTodos (st ! a)"
  let ?st = "st @ [?r]"
  have 1: "sortedTodos st a = (?st, length st)"
    using assms(1) by (rule sortedTodos_result)
  have a': "a < length ?st" using assms(1) by simp
  have same: "?st ! a = st ! a" using assms(1) by (simp add: nth_append)
  have 2: "sortedTodos ?st a = (?st @ [?r], length ?st)"
    using sortedTodos_result [OF a'] same by simp
  have order: "\<forall>i j. i < j \<longrightarrow> j < length ?r \<longrightarrow>
              (completed (?r ! i) \<longrightarrow> completed (?r ! j)) \<and>
              (completed (?r ! i) = completed (?r ! j) \<longrightarrow>
                 the (createdAt (?r ! j)) \<le> the (createdAt (?r ! i)))"
    using sorted_key_order [OF array_sort_properties(2) [OF assms(2)]] by blast
  have again: "\<exists>st'' copy'. sortedTodos ?st a = (st'', copy') \<and> st'' ! copy' = ?r \<and> st'' ! a = st ! a"
    using 2 assms(1) by (simp add: nth_append)
  show ?thesis
    using 1 same order again array_sort_properties(1,3) [OF assms(2)]
    by (intro exI [of _ ?st] exI [of _ "length st"] exI [of _ ?r]) simp
qed

theorem presentation_order_witness:
  "sortedTodos
     [[\<lparr> id = ascii ''A'', title = ascii ''a'', completed = True, createdAt = Some 1000 \<rparr>,
       \<lparr> id = ascii ''B'', title = ascii ''b'', completed = False, createdAt = Some 2000 \<rparr>,
       \<lparr> id = ascii ''C'', title = ascii ''c'', completed = False, createdAt = Some 3000 \<rparr>,
       \<lparr> id = ascii ''D'', title = ascii ''d'', completed = False, createdAt = Some 2000 \<rparr>]] 0
   = ([[\<lparr> id = ascii ''A'', title = ascii ''a'', completed = True, createdAt = Some 1000 \<rparr>,
        \<lparr> id = ascii ''B'', title = ascii ''b'', completed = False, createdAt = Some 2000 \<rparr>,
        \<lparr> id = ascii ''C'', title = ascii ''c'', completed = False, createdAt = Some 3000 \<rparr>,
        \<lparr> id = ascii ''D'', title = ascii ''d'', completed = False, createdAt = Some 2000 \<rparr>],
       [\<lparr> id = ascii ''C'', title = ascii ''c'', completed = False, createdAt = Some 3000 \<rparr>,
        \<lparr> id = ascii ''B'', title = ascii ''b'', completed = False, createdAt = Some 2000 \<rparr>,
        \<lparr> id = ascii ''D'', title = ascii ''d'', completed = False, createdAt = Some 2000 \<rparr>,
        \<lparr> id = ascii ''A'', title = ascii ''a'', completed = True, createdAt = Some 1000 \<rparr>]], 1)"
  using presentation_order [of 0
     "[[\<lparr> id = ascii ''A'', title = ascii ''a'', completed = True, createdAt = Some 1000 \<rparr>,
       \<lparr> id = ascii ''B'', title = ascii ''b'', completed = False, createdAt = Some 2000 \<rparr>,
       \<lparr> id = ascii ''C'', title = ascii ''c'', completed = False, createdAt = Some 3000 \<rparr>,
       \<lparr> id = ascii ''D'', title = ascii ''d'', completed = False, createdAt = Some 2000 \<rparr>]]"]
  by (simp add: sortedTodos_def spread_def sort_in_place_def array_sort_def compareTodos_def)

end
